theory Spec2Isabelle
  imports Main "HOL-Library.Multiset"
begin

section \<open>guppi: a shallow embedding of the repository orchestration engine\<close>

text \<open>
  Go strings are byte sequences, modelled as \<open>string\<close> (a list of 8-bit characters).
  Go's \<open>int\<close> is 64 bits wide and is modelled as the unbounded \<open>int\<close>. The arithmetic
  of the functions below is stepping an index or a level next to a bounds check, stepping
  the pane number modulo 3, and halving a parsed count; on the values the program holds none
  of it reaches the ends of the machine range. The range check of \<open>strconv.Atoi\<close> is
  written out.
\<close>

subsection \<open>The result tree cursor (pullresults.go)\<close>

record PullResultsCursor =
  Level :: int
  RepoIdx :: int
  CommitIdx :: int
  FileIdx :: int

text \<open>
  \<open>GoDeeper\<close> and \<open>GoUp\<close> mutate the cursor through a pointer receiver and return whether
  they moved; the model returns that flag together with the updated cursor.
\<close>

definition GoDeeper :: "PullResultsCursor \<Rightarrow> bool \<times> PullResultsCursor" where
  "GoDeeper c =
     (if Level c < 2 then
        (let c1 = c\<lparr>Level := Level c + 1\<rparr>;
             c2 = (if Level c1 = 1 then c1\<lparr>CommitIdx := 0\<rparr>
                   else if Level c1 = 2 then c1\<lparr>FileIdx := 0\<rparr>
                   else c1)
         in (True, c2))
      else (False, c))"

definition GoUp :: "PullResultsCursor \<Rightarrow> bool \<times> PullResultsCursor" where
  "GoUp c = (if Level c > 0 then (True, c\<lparr>Level := Level c - 1\<rparr>) else (False, c))"

subsection \<open>Go library functions used by the parsers\<close>

text \<open>
  \<open>strings.TrimSpace\<close> removes leading and trailing Unicode white space. On the bytes of a
  UTF-8 string these are the six ASCII characters tab, line feed, vertical tab, form feed,
  carriage return and space, the two-byte encodings of U+0085 and U+00A0, and the
  three-byte encodings of U+1680, U+2000 to U+200A, U+2028, U+2029, U+202F, U+205F and U+3000.
\<close>

definition asciiSpaces :: "char list" where
  "asciiSpaces = [CHR 0x09, CHR 0x0A, CHR 0x0B, CHR 0x0C, CHR 0x0D, CHR 0x20]"

definition twoByteSpaces :: "string list" where
  "twoByteSpaces = [[CHR 0xC2, CHR 0x85], [CHR 0xC2, CHR 0xA0]]"

definition threeByteSpaces :: "string list" where
  "threeByteSpaces =
     [[CHR 0xE1, CHR 0x9A, CHR 0x80],
      [CHR 0xE2, CHR 0x80, CHR 0x80], [CHR 0xE2, CHR 0x80, CHR 0x81],
      [CHR 0xE2, CHR 0x80, CHR 0x82], [CHR 0xE2, CHR 0x80, CHR 0x83],
      [CHR 0xE2, CHR 0x80, CHR 0x84], [CHR 0xE2, CHR 0x80, CHR 0x85],
      [CHR 0xE2, CHR 0x80, CHR 0x86], [CHR 0xE2, CHR 0x80, CHR 0x87],
      [CHR 0xE2, CHR 0x80, CHR 0x88], [CHR 0xE2, CHR 0x80, CHR 0x89],
      [CHR 0xE2, CHR 0x80, CHR 0x8A],
      [CHR 0xE2, CHR 0x80, CHR 0xA8], [CHR 0xE2, CHR 0x80, CHR 0xA9],
      [CHR 0xE2, CHR 0x80, CHR 0xAF],
      [CHR 0xE2, CHR 0x81, CHR 0x9F],
      [CHR 0xE3, CHR 0x80, CHR 0x80]]"

text \<open>The width in bytes of a white-space rune at the front (at the back) of a string, 0 if
  there is none.\<close>

definition spaceWidthFront :: "string \<Rightarrow> nat" where
  "spaceWidthFront s =
     (if s = [] then 0
      else if hd s \<in> set asciiSpaces then 1
      else if take 2 s \<in> set twoByteSpaces then 2
      else if take 3 s \<in> set threeByteSpaces then 3
      else 0)"

definition spaceWidthBack :: "string \<Rightarrow> nat" where
  "spaceWidthBack s =
     (if s = [] then 0
      else if last s \<in> set asciiSpaces then 1
      else if 2 \<le> length s \<and> drop (length s - 2) s \<in> set twoByteSpaces then 2
      else if 3 \<le> length s \<and> drop (length s - 3) s \<in> set threeByteSpaces then 3
      else 0)"

function trimLeft :: "string \<Rightarrow> string" where
  "trimLeft s = (if spaceWidthFront s = 0 then s else trimLeft (drop (spaceWidthFront s) s))"
  by pat_completeness auto
termination
proof (relation "measure length")
  fix s :: string
  assume "spaceWidthFront s \<noteq> 0"
  then have "s \<noteq> []" by (auto simp: spaceWidthFront_def)
  with \<open>spaceWidthFront s \<noteq> 0\<close> show "(drop (spaceWidthFront s) s, s) \<in> measure length"
    by simp
qed simp

function trimRight :: "string \<Rightarrow> string" where
  "trimRight s =
     (if spaceWidthBack s = 0 then s else trimRight (take (length s - spaceWidthBack s) s))"
  by pat_completeness auto
termination
proof (relation "measure length")
  fix s :: string
  assume "spaceWidthBack s \<noteq> 0"
  then have "s \<noteq> []" by (auto simp: spaceWidthBack_def)
  with \<open>spaceWidthBack s \<noteq> 0\<close> show "(take (length s - spaceWidthBack s) s, s) \<in> measure length"
    by simp
qed simp

declare trimLeft.simps [simp del] trimRight.simps [simp del]

definition TrimSpace :: "string \<Rightarrow> string" where
  "TrimSpace s = trimRight (trimLeft s)"

text \<open>\<open>strings.Split(s, "\n")\<close>: the pieces between separators; never the empty list.\<close>

fun Split :: "string \<Rightarrow> char \<Rightarrow> string list" where
  "Split [] sep = [[]]"
| "Split (c # cs) sep =
     (if c = sep then [] # Split cs sep
      else (case Split cs sep of [] \<Rightarrow> [[c]] | w # ws \<Rightarrow> (c # w) # ws))"

text \<open>\<open>strings.HasPrefix\<close> and \<open>strings.Contains\<close>.\<close>

fun HasPrefix :: "string \<Rightarrow> string \<Rightarrow> bool" where
  "HasPrefix s [] = True"
| "HasPrefix [] (p # ps) = False"
| "HasPrefix (c # cs) (p # ps) = (c = p \<and> HasPrefix cs ps)"

fun Contains :: "string \<Rightarrow> string \<Rightarrow> bool" where
  "Contains [] sub = (sub = [])"
| "Contains (c # cs) sub = (HasPrefix (c # cs) sub \<or> Contains cs sub)"

text \<open>
  \<open>strconv.Atoi\<close>: an optional sign, then one or more decimal digits and nothing else; the
  value has to fit Go's \<open>int\<close>, taken as 64 bits wide (the platforms guppi is released
  for). Every failure of the source (syntax error, range error) is \<open>None\<close>.
\<close>

definition isDigit :: "char \<Rightarrow> bool" where
  "isDigit c \<longleftrightarrow> (48::nat) \<le> of_char c \<and> of_char c \<le> (57::nat)"

definition digitVal :: "char \<Rightarrow> int" where
  "digitVal c = int (of_char c) - 48"

definition decimal :: "string \<Rightarrow> int" where
  "decimal ds = foldl (\<lambda>acc c. acc * 10 + digitVal c) 0 ds"

definition maxInt :: int where
  "maxInt = 2 ^ 63 - 1"

definition minInt :: int where
  "minInt = - (2 ^ 63)"

definition Atoi :: "string \<Rightarrow> int option" where
  "Atoi s =
     (let neg = (s \<noteq> [] \<and> hd s = CHR ''-'');
          ds = (if s \<noteq> [] \<and> (hd s = CHR ''+'' \<or> hd s = CHR ''-'') then tl s else s);
          v = (if neg then - decimal ds else decimal ds)
      in if ds = [] \<or> \<not> list_all isDigit ds then None
         else if v < minInt \<or> maxInt < v then None
         else Some v)"

text \<open>Go's integer division truncates towards zero.\<close>

definition goDiv :: "int \<Rightarrow> int \<Rightarrow> int" where
  "goDiv a b = sgn a * sgn b * (\<bar>a\<bar> div \<bar>b\<bar>)"

subsection \<open>The diff-stat pattern (pullresults.go, \<open>statPattern\<close>)\<close>

text \<open>
  The pattern \<^verbatim>\<open>^\s*(.+?)\s*\|\s*(\d+)?\s*(\+*)(-*)\<close> is a sequence of character classes, each
  under one quantifier, four of them capturing. Go's \<open>regexp\<close> returns the match a
  backtracking matcher finds first: a greedy quantifier tries the longest repetition first,
  a lazy one the shortest. The matcher below does exactly that over such a sequence. The
  pattern is anchored at the start and has no end anchor, so a match may stop anywhere.
  A group that took no part in the match is the empty string in the result of
  \<open>FindStringSubmatch\<close>.

  The classes: \<^verbatim>\<open>\s\<close> is tab, line feed, form feed, carriage return and space;
  \<^verbatim>\<open>\d\<close> is an ASCII digit; \<^verbatim>\<open>.\<close> is anything but a line feed. Go matches runes, not
  bytes; here the two agree, because what follows group 1 has to start with an ASCII
  character, and that can only stand at a rune boundary.
\<close>

datatype quant =
    Once        \<comment> \<open>\<open>x\<close>\<close>
  | Star        \<comment> \<open>\<open>x*\<close>, greedy\<close>
  | LazyPlus    \<comment> \<open>\<open>x+?\<close>, lazy\<close>
  | OptPlus     \<comment> \<open>\<open>(x+)?\<close>, greedy\<close>

datatype reItem = ReItem "char \<Rightarrow> bool" quant bool

text \<open>The lengths an item may take from a string whose longest run of class characters at
  the front is \<open>n\<close>, in the order the matcher tries them.\<close>

fun candidates :: "quant \<Rightarrow> nat \<Rightarrow> nat list" where
  "candidates Once n = (if 1 \<le> n then [1] else [])"
| "candidates Star n = rev [0..<Suc n]"
| "candidates LazyPlus n = [1..<Suc n]"
| "candidates OptPlus n = rev [1..<Suc n] @ [0]"

fun firstSome :: "('a \<Rightarrow> 'b option) \<Rightarrow> 'a list \<Rightarrow> 'b option" where
  "firstSome f [] = None"
| "firstSome f (x # xs) = (case f x of Some r \<Rightarrow> Some r | None \<Rightarrow> firstSome f xs)"

primrec matchItems :: "reItem list \<Rightarrow> string \<Rightarrow> string list option" where
  "matchItems [] s = Some []"
| "matchItems (it # its) s =
     (case it of ReItem cls q captured \<Rightarrow>
        firstSome
          (\<lambda>n. case matchItems its (drop n s) of
                 None \<Rightarrow> None
               | Some groups \<Rightarrow> Some (if captured then take n s # groups else groups))
          (candidates q (length (takeWhile cls s))))"

definition reSpace :: "char \<Rightarrow> bool" where
  "reSpace c \<longleftrightarrow> c \<in> set [CHR 0x09, CHR 0x0A, CHR 0x0C, CHR 0x0D, CHR 0x20]"

definition reAny :: "char \<Rightarrow> bool" where
  "reAny c \<longleftrightarrow> c \<noteq> CHR 0x0A"

definition statPattern :: "reItem list" where
  "statPattern =
     [ReItem reSpace Star False,
      ReItem reAny LazyPlus True,
      ReItem reSpace Star False,
      ReItem (\<lambda>c. c = CHR ''|'') Once False,
      ReItem reSpace Star False,
      ReItem isDigit OptPlus True,
      ReItem reSpace Star False,
      ReItem (\<lambda>c. c = CHR ''+'') Star True,
      ReItem (\<lambda>c. c = CHR ''-'') Star True]"

definition FindStringSubmatch :: "reItem list \<Rightarrow> string \<Rightarrow> string list option" where
  "FindStringSubmatch re s = matchItems re s"

subsection \<open>Parsing a diff stat (pullresults.go, \<open>parseGitStatOutput\<close>)\<close>

record FileChange =
  Path :: string
  Additions :: int
  Deletions :: int

text \<open>The body of the loop over the lines: \<open>None\<close> where the source appends nothing.\<close>

definition parseStatLine :: "string \<Rightarrow> FileChange option" where
  "parseStatLine line =
     (if Contains line ''files changed'' \<or> Contains line ''file changed'' then None
      else if TrimSpace line = [] then None
      else
        (case FindStringSubmatch statPattern line of
           Some [m1, m2, m3, m4] \<Rightarrow>
             (let path = TrimSpace m1;
                  additions = int (length m3);
                  deletions = int (length m4)
              in if m2 \<noteq> [] \<and> additions = 0 \<and> deletions = 0 then
                   (case Atoi m2 of
                      Some cnt \<Rightarrow>
                        (let additions' = goDiv cnt 2;
                             deletions' = cnt - additions'
                         in Some \<lparr>Path = path, Additions = additions', Deletions = deletions'\<rparr>)
                    | None \<Rightarrow>
                        Some \<lparr>Path = path, Additions = additions, Deletions = deletions\<rparr>)
                 else Some \<lparr>Path = path, Additions = additions, Deletions = deletions\<rparr>)
         | _ \<Rightarrow> None))"

definition parseGitStatOutput :: "string \<Rightarrow> FileChange list" where
  "parseGitStatOutput output =
     List.map_filter parseStatLine (Split (TrimSpace output) (CHR 0x0A))"

text \<open>The classes of the capturing items, in the order of their groups.\<close>

fun capturedClasses :: "reItem list \<Rightarrow> (char \<Rightarrow> bool) list" where
  "capturedClasses [] = []"
| "capturedClasses (ReItem cls q captured # its) =
     (if captured then cls # capturedClasses its else capturedClasses its)"

subsection \<open>The data model (types.go)\<close>

datatype GitStatus = StatusUnknown | StatusClean | StatusCleanBehind | StatusDirty | StatusError

record Repo =
  Path :: string
  Name :: string
  Branch :: string
  Status :: GitStatus
  StatusText :: string
  IsFavorite :: bool
  PullResult :: string
  BehindCount :: int

record Group =
  Name :: string
  Repos :: "string list"
  IsBuiltIn :: bool

record GroupItem =
  Name :: string
  RepoCount :: int
  DirtyCount :: int
  BehindCount :: int

record BranchInfo =
  Name :: string
  IsLocal :: bool
  IsRemote :: bool
  IsCurrent :: bool
  RemoteName :: string

datatype viewMode =
    listView | detailView | configView | actionSelectView | errorView | settingsView
  | groupInputView | groupDeleteView | groupSelectView | groupAddReposView | pullResultsView

text \<open>\<open>detailPane\<close> is an integer type in the source, and the reducer computes with it.\<close>

type_synonym detailPane = int

definition paneStatus :: detailPane where "paneStatus = 0"
definition paneBranches :: detailPane where "paneBranches = 1"
definition paneCommand :: detailPane where "paneCommand = 2"

record statusUpdatedMsg =
  path :: string
  branch :: string
  status :: GitStatus
  msgText :: string
  behindCount :: int

record branchesLoadedMsg =
  path :: string
  branches :: "BranchInfo list"
  current :: string

text \<open>The \<open>err\<close> field is Go's \<open>error\<close>: \<open>None\<close> is \<open>nil\<close>.\<close>

record pullCompleteMsg =
  path :: string
  result :: string
  shortResult :: string
  err :: "string option"

record CommitInfo =
  Hash :: string
  Message :: string
  Author :: string
  Time :: string

record PullResultInfo =
  RepoPath :: string
  RepoName :: string
  Commits :: "CommitInfo list"
  FilesChanged :: int
  Updated :: bool

text \<open>
  A \<open>tea.Cmd\<close> is a task handed to the runtime. The model names each task by the function
  that builds it and its arguments; \<open>CmdWidget\<close> stands for a command returned by one of the
  widgets of the bubbles library, \<open>CmdNil\<close> for \<open>nil\<close>.
\<close>

datatype cmd =
    CmdNil
  | CmdBatch "cmd list"
  | CmdWidget
  | CmdSpinnerTick
  | CmdPullRepo string
  | CmdCheckGitStatus string
  | CmdLoadGitDetail string
  | CmdLoadBranches string
  | CmdSwitchBranch string string
  | CmdDeleteBranch string string bool
  | CmdCreateLocalBranch string string string
  | CmdRunCommand string string

text \<open>The tasks a command dispatches: \<open>tea.Batch\<close> runs every member that is not \<open>nil\<close>.\<close>

fun dispatched :: "cmd \<Rightarrow> cmd list" where
  "dispatched CmdNil = []"
| "dispatched (CmdBatch cs) = concat (map dispatched cs)"
| "dispatched c = [c]"

datatype listItem = RepoItem Repo | GroupRow GroupItem

datatype filterState = Unfiltered | Filtering | FilterApplied

text \<open>
  The reducer's state. The widgets of the bubbles library (\<open>list\<close>, \<open>viewport\<close>, \<open>spinner\<close>,
  the text inputs) keep their state to themselves; what the reducer reads from them comes in
  through \<open>world\<close> below, and calls that only hand them new content to draw
  (\<open>SetItems\<close>, \<open>SetContent\<close>, \<open>SetFilterText\<close>) leave the modelled state as it is.
  A Go map is a partial function; \<open>len(m) == 0\<close> is \<open>dom m = {}\<close>.
\<close>

record model =
  repos :: "Repo list"
  pulling :: bool
  statusMsg :: string
  errorMsg :: string
  mode :: viewMode
  previousMode :: viewMode
  savedFilter :: string
  detailRepo :: "Repo option"
  detailContent :: string
  branches :: "BranchInfo list"
  branchIndex :: int
  targetBranch :: string
  actionIndex :: int
  hasChanges :: bool
  filterDirty :: bool
  filterBehind :: bool
  detailFocus :: detailPane
  cmdOutput :: string
  cmdRunning :: bool
  groupsMap :: "string \<rightharpoonup> Group"
  currentGroup :: "Group option"
  pendingPulls :: "string \<rightharpoonup> string"
  pullResults :: "PullResultInfo list"
  showPullResults :: bool
  pullResultsCursor :: int
  pullExpanded :: "string \<rightharpoonup> bool"

text \<open>
  What a handler reads from outside the state while it runs: the bubbles widgets, and git.
  The functions \<open>getHeadCommit\<close>, \<open>getCommitsBetween\<close> and \<open>getFilesChangedCount\<close> are
  functions of this repository that the reducer calls and whose bodies are not among the
  sources. They run git, so they are fields of the world the handler runs in, and the
  reducer is modelled for every such world.
\<close>

record world =
  getHeadCommit :: "string \<Rightarrow> string"
  getCommitsBetween :: "string \<Rightarrow> string \<Rightarrow> string \<Rightarrow> CommitInfo list"
  getFilesChangedCount :: "string \<Rightarrow> string \<Rightarrow> string \<Rightarrow> int"
  statusPorcelain :: "string \<Rightarrow> string"
  listFilterState :: filterState
  listFilterValue :: string
  listSelectedItem :: "listItem option"
  cmdInputValue :: string

text \<open>
  Modelled from the spec: the history of a repository as git holds it (what the missing
  \<open>getHeadCommit\<close>, \<open>getCommitsBetween\<close> and \<open>getFilesChangedCount\<close> read), newest commit
  first, each commit with its reference, its description and the number of files it changed.
\<close>

record commitEntry =
  ref :: string
  info :: CommitInfo
  files :: int

text \<open>
  Modelled from the spec: the range of the missing \<open>getCommitsBetween\<close>, ``the ordered
  commit list strictly between the pre-pull and post-pull references (newest-first)''
  (section 4.5): the commits from the post-pull reference back to, and not including, the
  pre-pull one. The post-pull commit itself counts: the specification's scenario of an
  upstream three commits ahead yields three entries.
\<close>

definition specRange :: "commitEntry list \<Rightarrow> string \<Rightarrow> string \<Rightarrow> commitEntry list" where
  "specRange history old new =
     takeWhile (\<lambda>c. ref c \<noteq> old) (dropWhile (\<lambda>c. ref c \<noteq> new) history)"

text \<open>
  Modelled from the spec: the missing \<open>getHeadCommit\<close> (``its current head reference'',
  section 4.4: the newest commit, the empty string when there is none),
  \<open>getCommitsBetween\<close> (the descriptions of the range above) and \<open>getFilesChangedCount\<close>
  (``the aggregate file-changed count across that range'': the sum over its commits), put
  into a world in place of whatever it held.
\<close>

definition specWorld :: "(string \<Rightarrow> commitEntry list) \<Rightarrow> world \<Rightarrow> world" where
  "specWorld history w =
     w\<lparr>getHeadCommit := (\<lambda>p. case history p of [] \<Rightarrow> [] | c # _ \<Rightarrow> ref c),
       getCommitsBetween := (\<lambda>p old new. map info (specRange (history p) old new)),
       getFilesChangedCount := (\<lambda>p old new. sum_list (map files (specRange (history p) old new)))\<rparr>"

subsection \<open>The reducer: a completed pull (update.go, \<open>case pullCompleteMsg\<close>)\<close>

text \<open>\<open>filepath.Base\<close> with \<open>/\<close> as the separator.\<close>

definition Base :: "string \<Rightarrow> string" where
  "Base p =
     (if p = [] then ''.''
      else (let stripped = rev (dropWhile (\<lambda>c. c = CHR ''/'') (rev p));
                lastElem = rev (takeWhile (\<lambda>c. c \<noteq> CHR ''/'') (rev stripped))
            in if lastElem = [] then ''/'' else lastElem))"

text \<open>
  The first loop of the handler: the first repository with the message's path gets its
  pull-result label (\<open>break\<close> ends the loop there). \<open>findRepo\<close> is the repository the
  loop stops at.
\<close>

fun findRepo :: "Repo list \<Rightarrow> string \<Rightarrow> Repo option" where
  "findRepo [] p = None"
| "findRepo (r # rs) p = (if Repo.Path r = p then Some r else findRepo rs p)"

fun setPullResult :: "Repo list \<Rightarrow> string \<Rightarrow> string \<Rightarrow> Repo list" where
  "setPullResult [] p label = []"
| "setPullResult (r # rs) p label =
     (if Repo.Path r = p then r\<lparr>PullResult := label\<rparr> # rs else r # setPullResult rs p label)"

definition labelRepo :: "model \<Rightarrow> pullCompleteMsg \<Rightarrow> string \<times> model" where
  "labelRepo m msg =
     (case findRepo (repos m) (pullCompleteMsg.path msg) of
        None \<Rightarrow> (Base (pullCompleteMsg.path msg), m)
      | Some r \<Rightarrow>
          (Repo.Name r,
           if err msg \<noteq> None then
             m\<lparr>repos := setPullResult (repos m) (pullCompleteMsg.path msg) ''error''\<rparr>
           else
             m\<lparr>repos := setPullResult (repos m) (pullCompleteMsg.path msg) (shortResult msg),
               errorMsg := []\<rparr>))"

text \<open>The second part: the pending pull is taken out of the map and, if the pull brought
  commits, reported.\<close>

definition collectPullResult :: "world \<Rightarrow> string \<Rightarrow> model \<Rightarrow> pullCompleteMsg \<Rightarrow> model" where
  "collectPullResult w repoName m msg =
     (case pendingPulls m (pullCompleteMsg.path msg) of
        None \<Rightarrow> m
      | Some oldHead \<Rightarrow>
          (let m1 = m\<lparr>pendingPulls := (pendingPulls m)(pullCompleteMsg.path msg := None)\<rparr>
           in if err msg = None \<and> \<not> Contains (result msg) ''Already up to date'' then
                (let newHead = getHeadCommit w (pullCompleteMsg.path msg);
                     commits = getCommitsBetween w (pullCompleteMsg.path msg) oldHead newHead;
                     filesChanged = getFilesChangedCount w (pullCompleteMsg.path msg) oldHead newHead
                 in if length commits > 0 then
                      m1\<lparr>pullResults := pullResults m1 @
                           [\<lparr>RepoPath = pullCompleteMsg.path msg,
                             RepoName = repoName,
                             Commits = commits,
                             FilesChanged = filesChanged,
                             Updated = True\<rparr>]\<rparr>
                    else m1)
              else m1))"

text \<open>The third part, from \<open>allDone := len(m.pendingPulls) == 0\<close> on.\<close>

definition finishPull :: "world \<Rightarrow> string \<Rightarrow> bool \<Rightarrow> model \<Rightarrow> pullCompleteMsg \<Rightarrow> model" where
  "finishPull w repoName allDone m msg =
     (if err msg \<noteq> None then
        m\<lparr>statusMsg := [],
          errorMsg := ''Pull failed for '' @ repoName @ '':'' @ [CHR 0x0A, CHR 0x0A] @ result msg,
          previousMode := mode m,
          savedFilter := (if listFilterState w = FilterApplied then listFilterValue w
                          else savedFilter m),
          mode := errorView,
          pulling := \<not> allDone\<rparr>
      else if allDone then
        (let m1 = m\<lparr>pulling := False\<rparr>
         in if showPullResults m1 \<and> length (pullResults m1) > 0 then
              m1\<lparr>mode := pullResultsView,
                 pullResultsCursor := 0,
                 pullExpanded := (case pullResults m1 of
                                    [] \<Rightarrow> Map.empty
                                  | r # _ \<Rightarrow> [RepoPath r \<mapsto> True]),
                 statusMsg := []\<rparr>
            else m1\<lparr>statusMsg := ''Pulled '' @ repoName @ '': '' @ shortResult msg\<rparr>)
      else m\<lparr>statusMsg := ''Pulled '' @ repoName @ '': '' @ shortResult msg\<rparr>)"

text \<open>\<open>allDone\<close> is a local variable of the handler; \<open>pullAllDone\<close> is its value.\<close>

definition pullAllDone :: "world \<Rightarrow> model \<Rightarrow> pullCompleteMsg \<Rightarrow> bool" where
  "pullAllDone w m msg =
     (case labelRepo m msg of
        (repoName, m1) \<Rightarrow> dom (pendingPulls (collectPullResult w repoName m1 msg)) = {})"

text \<open>The handler, with the end of \<open>Update\<close> that every message falls through to: in the
  list view the list widget sees the message too and may answer with a command.\<close>

definition updatePullComplete :: "world \<Rightarrow> model \<Rightarrow> pullCompleteMsg \<Rightarrow> model \<times> cmd" where
  "updatePullComplete w m msg =
     (case labelRepo m msg of
        (repoName, m1) \<Rightarrow>
          (let m2 = collectPullResult w repoName m1 msg;
               allDone = (dom (pendingPulls m2) = {});
               m3 = finishPull w repoName allDone m2 msg;
               cmds = [CmdCheckGitStatus (pullCompleteMsg.path msg)]
           in (m3, CmdBatch (if mode m3 = listView then cmds @ [CmdWidget] else cmds))))"

text \<open>
  A round of completions, one event after the other, each in the world it arrives in. Per
  event \<open>pullTrace\<close> records the path, whether the handler found and removed a pending
  entry (the \<open>ok\<close> of its map lookup), and the handler's \<open>allDone\<close>.
\<close>

fun runPulls :: "model \<Rightarrow> (world \<times> pullCompleteMsg) list \<Rightarrow> model" where
  "runPulls m [] = m"
| "runPulls m ((w, msg) # es) = runPulls (fst (updatePullComplete w m msg)) es"

fun pullTrace :: "model \<Rightarrow> (world \<times> pullCompleteMsg) list \<Rightarrow> (string \<times> bool \<times> bool) list" where
  "pullTrace m [] = []"
| "pullTrace m ((w, msg) # es) =
     (pullCompleteMsg.path msg,
      pendingPulls m (pullCompleteMsg.path msg) \<noteq> None,
      pullAllDone w m msg)
     # pullTrace (fst (updatePullComplete w m msg)) es"

text \<open>How often the pending entry of path \<open>p\<close> was removed in a trace.\<close>

definition removals :: "string \<Rightarrow> (string \<times> bool \<times> bool) list \<Rightarrow> nat" where
  "removals p tr = length (filter (\<lambda>e. fst e = p \<and> fst (snd e)) tr)"

subsection \<open>The reducer: starting pulls (update.go, keys \<open>p\<close>, \<open>P\<close> and \<open>A\<close> of the list view)\<close>

text \<open>\<open>fmt.Sprintf("%d", n)\<close> for the lengths and counts the reducer prints.\<close>

function showNat :: "nat \<Rightarrow> string" where
  "showNat n =
     (if n < 10 then [char_of (48 + n)] else showNat (n div 10) @ [char_of (48 + n mod 10)])"
  by pat_completeness auto
termination
  by (relation "measure id") auto

declare showNat.simps [simp del]

text \<open>\<open>getFilteredRepos\<close> (model.go): the repositories that pass the status filters.\<close>

fun filterRepos :: "bool \<Rightarrow> bool \<Rightarrow> Repo list \<Rightarrow> Repo list" where
  "filterRepos fd fb [] = []"
| "filterRepos fd fb (repo # rs) =
     (if fd \<and> Status repo \<noteq> StatusDirty then filterRepos fd fb rs
      else if fb \<and> Repo.BehindCount repo = 0 then filterRepos fd fb rs
      else repo # filterRepos fd fb rs)"

definition getFilteredRepos :: "model \<Rightarrow> Repo list" where
  "getFilteredRepos m = filterRepos (filterDirty m) (filterBehind m) (repos m)"

text \<open>\<open>getGroupRepos\<close> (model.go): the repositories whose path the named group lists, in
  the order of \<open>m.repos\<close>; none when there is no such group.\<close>

definition getGroupRepos :: "model \<Rightarrow> string \<Rightarrow> Repo list" where
  "getGroupRepos m groupName =
     (case groupsMap m groupName of
        None \<Rightarrow> []
      | Some grp \<Rightarrow> filter (\<lambda>repo. Repo.Path repo \<in> set (Repos grp)) (repos m))"

text \<open>The loop that begins a batch: for each repository the head before the pull goes into
  the pending map, under the repository's path, and a pull task is queued.\<close>

fun capturePulls :: "world \<Rightarrow> Repo list \<Rightarrow> (string \<rightharpoonup> string) \<Rightarrow> (string \<rightharpoonup> string)" where
  "capturePulls w [] pp = pp"
| "capturePulls w (repo # rs) pp =
     capturePulls w rs (pp(Repo.Path repo \<mapsto> getHeadCommit w (Repo.Path repo)))"

definition pullCmdsFor :: "Repo list \<Rightarrow> cmd list" where
  "pullCmdsFor rs = map (\<lambda>repo. CmdPullRepo (Repo.Path repo)) rs"

text \<open>The two group branches of \<open>P\<close> are the same code, for the current group and for the
  group row selected on the home page.\<close>

definition pullGroup :: "world \<Rightarrow> model \<Rightarrow> string \<Rightarrow> model \<times> cmd" where
  "pullGroup w m groupName =
     (let rs = getGroupRepos m groupName;
          m1 = m\<lparr>pendingPulls := capturePulls w rs (pendingPulls m)\<rparr>;
          pullCmds = pullCmdsFor rs
      in if length pullCmds > 0 then
           (m1\<lparr>pulling := True,
               statusMsg := ''Pulling '' @ showNat (length pullCmds) @ '' repos in ''
                            @ groupName @ ''...''\<rparr>,
            CmdBatch (pullCmds @ [CmdSpinnerTick]))
         else (m1\<lparr>statusMsg := ''No repos to pull in '' @ groupName\<rparr>, CmdNil))"

text \<open>The repositories a press of \<open>P\<close> pulls.\<close>

definition batchRepos :: "world \<Rightarrow> model \<Rightarrow> Repo list" where
  "batchRepos w m =
     (case currentGroup m of
        Some g \<Rightarrow> getGroupRepos m (Group.Name g)
      | None \<Rightarrow>
          (case listSelectedItem w of
             Some (GroupRow grp) \<Rightarrow> getGroupRepos m (GroupItem.Name grp)
           | _ \<Rightarrow> filter IsFavorite (repos m)))"

text \<open>Key \<open>P\<close>. The keys of this subsection are handled in the list view only (every other
  view returns earlier in \<open>Update\<close>). Where the source leaves the \<open>switch\<close> without
  returning (no favourites), the end of \<open>Update\<close> hands the key to the list widget.\<close>

definition keyP :: "world \<Rightarrow> model \<Rightarrow> model \<times> cmd" where
  "keyP w m =
     (let m0 = m\<lparr>pullResults := [], pendingPulls := Map.empty\<rparr>
      in case currentGroup m0 of
           Some g \<Rightarrow> pullGroup w m0 (Group.Name g)
         | None \<Rightarrow>
             (case listSelectedItem w of
                Some (GroupRow grp) \<Rightarrow> pullGroup w m0 (GroupItem.Name grp)
              | _ \<Rightarrow>
                  (let favs = filter IsFavorite (repos m0);
                       m1 = m0\<lparr>pendingPulls := capturePulls w favs (pendingPulls m0)\<rparr>;
                       pullCmds = pullCmdsFor favs;
                       cnt = length favs
                   in if cnt > 0 then
                        (m1\<lparr>pulling := True,
                            statusMsg := ''Pulling '' @ showNat cnt @ '' favorites...''\<rparr>,
                         CmdBatch (pullCmds @ [CmdSpinnerTick]))
                      else (m1, CmdBatch [CmdWidget]))))"

text \<open>Key \<open>A\<close>: every repository that passes the filters and is behind its upstream.\<close>

definition keyA :: "world \<Rightarrow> model \<Rightarrow> model \<times> cmd" where
  "keyA w m =
     (let m0 = m\<lparr>pullResults := [], pendingPulls := Map.empty\<rparr>;
          behind = filter (\<lambda>repo. Repo.BehindCount repo > 0) (getFilteredRepos m0);
          m1 = m0\<lparr>pendingPulls := capturePulls w behind (pendingPulls m0)\<rparr>;
          pullCmds = pullCmdsFor behind;
          cnt = length behind
      in if cnt > 0 then
           (m1\<lparr>pulling := True,
               statusMsg := ''Pulling '' @ showNat cnt @ '' repos behind remote...''\<rparr>,
            CmdBatch (pullCmds @ [CmdSpinnerTick]))
         else (m1\<lparr>statusMsg := ''No repos behind remote to pull''\<rparr>, CmdBatch [CmdWidget]))"

text \<open>Key \<open>p\<close>: the selected repository alone. The entry is written into the map as it
  is, beside whatever is pending (the map is one the reducer allocated before).\<close>

definition keyp :: "world \<Rightarrow> model \<Rightarrow> model \<times> cmd" where
  "keyp w m =
     (case listSelectedItem w of
        Some (RepoItem item) \<Rightarrow>
          (m\<lparr>pulling := True,
             statusMsg := ''Pulling '' @ Repo.Name item @ ''...'',
             pendingPulls := (pendingPulls m)(Repo.Path item \<mapsto> getHeadCommit w (Repo.Path item)),
             pullResults := []\<rparr>,
           CmdBatch [CmdSpinnerTick, CmdPullRepo (Repo.Path item)])
      | _ \<Rightarrow> (m, CmdBatch [CmdWidget]))"

text \<open>The paths of the completion events of a round.\<close>

definition eventPaths :: "(world \<times> pullCompleteMsg) list \<Rightarrow> string set" where
  "eventPaths es = (\<lambda>e. pullCompleteMsg.path (snd e)) ` set es"

subsection \<open>Sorting with \<open>sort.Slice\<close>\<close>

text \<open>
  Go compares strings byte by byte. \<open>sort.Slice\<close> is not stable; on short slices it is the
  insertion sort below (each element moves left while it is less than its left neighbour),
  on longer ones a quicksort. Either way its result is a permutation of its input, which is
  all the properties below rely on.
\<close>

fun strLess :: "string \<Rightarrow> string \<Rightarrow> bool" where
  "strLess [] [] = False"
| "strLess [] (d # ds) = True"
| "strLess (c # cs) [] = False"
| "strLess (c # cs) (d # ds) =
     ((of_char c :: nat) < of_char d \<or> (c = d \<and> strLess cs ds))"

text \<open>\<open>moveLeft lt x ys\<close>: \<open>ys\<close> is the sorted part, last element first.\<close>

fun moveLeft :: "('a \<Rightarrow> 'a \<Rightarrow> bool) \<Rightarrow> 'a \<Rightarrow> 'a list \<Rightarrow> 'a list" where
  "moveLeft lt x [] = [x]"
| "moveLeft lt x (y # ys) = (if lt x y then y # moveLeft lt x ys else x # y # ys)"

definition sortSlice :: "('a \<Rightarrow> 'a \<Rightarrow> bool) \<Rightarrow> 'a list \<Rightarrow> 'a list" where
  "sortSlice lt xs = rev (foldl (\<lambda>acc x. moveLeft lt x acc) [] xs)"

subsection \<open>The status refresher (git.go, \<open>checkGitStatus\<close>)\<close>

text \<open>What \<open>cmd.Output()\<close> returns for one run of git: the captured standard output, and
  whether the error is not \<open>nil\<close>.\<close>

record execResult =
  stdout :: string
  failed :: bool

text \<open>
  The task runs \<open>git rev-parse\<close>, \<open>git fetch\<close> (result ignored), \<open>git rev-list --count\<close> and
  \<open>git status --porcelain\<close>; the three results it reads are its arguments here. The field
  \<open>text\<close> of the message is \<open>msgText\<close>.
\<close>

definition checkGitStatus :: "string \<Rightarrow> execResult \<Rightarrow> execResult \<Rightarrow> execResult \<Rightarrow> statusUpdatedMsg" where
  "checkGitStatus p branchRes behindRes statusRes =
     (let branch0 = TrimSpace (stdout branchRes);
          branch1 = (if branch0 = [] then ''?'' else branch0);
          behind = (if \<not> failed behindRes then
                      (case Atoi (TrimSpace (stdout behindRes)) of
                         Some cnt \<Rightarrow> cnt
                       | None \<Rightarrow> 0)
                    else 0)
      in if failed statusRes then
           \<lparr>statusUpdatedMsg.path = p, branch = branch1, status = StatusError,
            msgText = ''failed to get status'', behindCount = 0\<rparr>
         else
           (let lines = TrimSpace (stdout statusRes)
            in if lines = [] then
                 (if behind > 0 then
                    \<lparr>statusUpdatedMsg.path = p, branch = branch1, status = StatusCleanBehind,
                     msgText = [], behindCount = behind\<rparr>
                  else
                    \<lparr>statusUpdatedMsg.path = p, branch = branch1, status = StatusClean,
                     msgText = [], behindCount = 0\<rparr>)
               else
                 (let lineCount = length (Split lines (CHR 0x0A))
                  in \<lparr>statusUpdatedMsg.path = p, branch = branch1, status = StatusDirty,
                      msgText = showNat lineCount @ '' changed'', behindCount = behind\<rparr>)))"

subsection \<open>The branch reconciler (git.go, \<open>loadBranches\<close>)\<close>

definition TrimPrefix :: "string \<Rightarrow> string \<Rightarrow> string" where
  "TrimPrefix s pre = (if HasPrefix s pre then drop (length pre) s else s)"

text \<open>
  The first half of \<open>loadBranches\<close> parses git's output into the current branch name and two
  maps. \<open>localBranches\<close> (local name to upstream name, empty when there is none) is only
  ranged over: it is given by its entries in the order the \<open>range\<close> visits them, whatever
  that order is. \<open>remoteBranches\<close> only ever holds \<open>true\<close>: it is given by its keys in the
  order they are visited, and looking a name up is membership. \<open>seenRemotes\<close> is a set.

  One pass of the first loop:
\<close>

definition addLocalBranch ::
  "string \<Rightarrow> string list \<Rightarrow> string \<times> string \<Rightarrow> BranchInfo list \<times> string set
     \<Rightarrow> BranchInfo list \<times> string set" where
  "addLocalBranch cur remoteBranches entry acc =
     (case entry of (localName, remoteName) \<Rightarrow>
      case acc of (bs, seenRemotes) \<Rightarrow>
        if remoteName \<noteq> [] then
          (bs @ [\<lparr>Name = localName, IsLocal = True,
                  IsRemote = (remoteName \<in> set remoteBranches),
                  IsCurrent = (localName = cur), RemoteName = remoteName\<rparr>],
           insert remoteName seenRemotes)
        else
          (let possibleRemote = ''origin/'' @ localName
           in if possibleRemote \<in> set remoteBranches then
                (bs @ [\<lparr>Name = localName, IsLocal = True, IsRemote = True,
                        IsCurrent = (localName = cur), RemoteName = possibleRemote\<rparr>],
                 insert possibleRemote seenRemotes)
              else
                (bs @ [\<lparr>Name = localName, IsLocal = True, IsRemote = False,
                        IsCurrent = (localName = cur), RemoteName = remoteName\<rparr>],
                 seenRemotes)))"

text \<open>One pass of the second loop:\<close>

definition addRemoteBranch :: "string set \<Rightarrow> string \<Rightarrow> BranchInfo list \<Rightarrow> BranchInfo list" where
  "addRemoteBranch seenRemotes remoteName bs =
     (if remoteName \<in> seenRemotes then bs
      else
        (let localName = (if HasPrefix remoteName ''origin/''
                          then TrimPrefix remoteName ''origin/'' else remoteName)
         in bs @ [\<lparr>Name = localName, IsLocal = False, IsRemote = True,
                   IsCurrent = False, RemoteName = remoteName\<rparr>]))"

text \<open>The comparison handed to \<open>sort.Slice\<close>.\<close>

definition branchLess :: "BranchInfo \<Rightarrow> BranchInfo \<Rightarrow> bool" where
  "branchLess bi bj =
     (if IsCurrent bi then True
      else if IsCurrent bj then False
      else (let iBoth = (IsLocal bi \<and> IsRemote bi);
                jBoth = (IsLocal bj \<and> IsRemote bj)
            in if iBoth \<noteq> jBoth then iBoth
               else if IsLocal bi \<noteq> IsLocal bj then IsLocal bi
               else strLess (BranchInfo.Name bi) (BranchInfo.Name bj)))"

definition buildBranches :: "string \<Rightarrow> (string \<times> string) list \<Rightarrow> string list \<Rightarrow> BranchInfo list" where
  "buildBranches cur localBranches remoteBranches =
     (case foldl (\<lambda>acc entry. addLocalBranch cur remoteBranches entry acc) ([], {}) localBranches of
        (bs, seenRemotes) \<Rightarrow>
          foldl (\<lambda>acc remoteName. addRemoteBranch seenRemotes remoteName acc) bs remoteBranches)"

definition loadBranches ::
  "string \<Rightarrow> string \<Rightarrow> (string \<times> string) list \<Rightarrow> string list \<Rightarrow> branchesLoadedMsg" where
  "loadBranches p cur localBranches remoteBranches =
     \<lparr>branchesLoadedMsg.path = p,
      branchesLoadedMsg.branches = sortSlice branchLess (buildBranches cur localBranches remoteBranches),
      current = cur\<rparr>"

subsection \<open>The list of the first release (main.go, \<open>updateList\<close>)\<close>

text \<open>
  \<open>updateList\<close> sorts \<open>m.repos\<close> in place, favourites first and then by name, and hands the
  repositories that pass the status filters to the list widget. The model returns the state
  with the sorted repositories, and the items. The filter loop is the one of
  \<open>getFilteredRepos\<close>.
\<close>

definition repoLess :: "Repo \<Rightarrow> Repo \<Rightarrow> bool" where
  "repoLess ri rj =
     (if IsFavorite ri \<noteq> IsFavorite rj then IsFavorite ri
      else strLess (Repo.Name ri) (Repo.Name rj))"

definition updateList :: "model \<Rightarrow> model \<times> Repo list" where
  "updateList m =
     (let m1 = m\<lparr>repos := sortSlice repoLess (repos m)\<rparr>
      in (m1, filterRepos (filterDirty m1) (filterBehind m1) (repos m1)))"

subsection \<open>The reducer: keys of the detail view (update.go, \<open>if m.mode == detailView\<close>)\<close>

text \<open>A Go panic ends the program; the reducer returns nothing then.\<close>

datatype panic = IndexOutOfRange | NilDereference

text \<open>Go's remainder has the sign of the dividend.\<close>

definition goMod :: "int \<Rightarrow> int \<Rightarrow> int" where
  "goMod a b = a - b * goDiv a b"

text \<open>\<open>m.branches[m.branchIndex]\<close>.\<close>

definition selectedBranch :: "model \<Rightarrow> panic + BranchInfo" where
  "selectedBranch m =
     (if 0 \<le> branchIndex m \<and> branchIndex m < int (length (branches m))
      then Inr (branches m ! nat (branchIndex m))
      else Inl IndexOutOfRange)"

text \<open>\<open>hasUncommittedChanges\<close> (git.go) runs \<open>git status --porcelain\<close>.\<close>

definition hasUncommittedChanges :: "world \<Rightarrow> string \<Rightarrow> bool" where
  "hasUncommittedChanges w p \<longleftrightarrow> TrimSpace (statusPorcelain w p) \<noteq> []"

text \<open>The keys of the branches pane.\<close>

definition branchesPaneKey :: "world \<Rightarrow> model \<Rightarrow> string \<Rightarrow> panic + model \<times> cmd" where
  "branchesPaneKey w m key =
     (if key = ''up'' \<or> key = ''k'' then
        Inr (if branchIndex m > 0 then m\<lparr>branchIndex := branchIndex m - 1\<rparr> else m, CmdNil)
      else if key = ''down'' \<or> key = ''j'' then
        Inr (if branchIndex m < int (length (branches m)) - 1
             then m\<lparr>branchIndex := branchIndex m + 1\<rparr> else m, CmdNil)
      else if key = ''enter'' then
        (case detailRepo m of
           Some repo \<Rightarrow>
             if length (branches m) > 0 then
               (case selectedBranch m of
                  Inl e \<Rightarrow> Inl e
                | Inr br \<Rightarrow>
                    if IsCurrent br then
                      Inr (m\<lparr>statusMsg := ''Already on '' @ BranchInfo.Name br\<rparr>, CmdNil)
                    else
                      (let checkoutName = (if \<not> IsLocal br \<and> IsRemote br
                                           then RemoteName br else BranchInfo.Name br);
                           m1 = m\<lparr>targetBranch := BranchInfo.Name br\<rparr>
                       in if hasUncommittedChanges w (Repo.Path repo) then
                            Inr (m1\<lparr>hasChanges := True, mode := actionSelectView,
                                    actionIndex := 0\<rparr>, CmdNil)
                          else
                            Inr (m1\<lparr>statusMsg := ''Switching to '' @ BranchInfo.Name br @ ''...''\<rparr>,
                                 CmdSwitchBranch (Repo.Path repo) checkoutName)))
             else Inr (m, CmdNil)
         | None \<Rightarrow> Inr (m, CmdNil))
      else if key = ''x'' then
        (case detailRepo m of
           Some repo \<Rightarrow>
             if length (branches m) > 0 then
               (case selectedBranch m of
                  Inl e \<Rightarrow> Inl e
                | Inr br \<Rightarrow>
                    if IsCurrent br then
                      Inr (m\<lparr>statusMsg := ''Cannot delete current branch''\<rparr>, CmdNil)
                    else if \<not> IsLocal br then
                      Inr (m\<lparr>statusMsg := ''Branch is remote-only, nothing to delete locally''\<rparr>,
                           CmdNil)
                    else if IsRemote br then
                      Inr (m\<lparr>statusMsg := ''Branch exists on remote. Use 'X' to force delete.''\<rparr>,
                           CmdNil)
                    else Inr (m, CmdDeleteBranch (Repo.Path repo) (BranchInfo.Name br) False))
             else Inr (m, CmdNil)
         | None \<Rightarrow> Inr (m, CmdNil))
      else if key = ''X'' then
        (case detailRepo m of
           Some repo \<Rightarrow>
             if length (branches m) > 0 then
               (case selectedBranch m of
                  Inl e \<Rightarrow> Inl e
                | Inr br \<Rightarrow>
                    if IsCurrent br then
                      Inr (m\<lparr>statusMsg := ''Cannot delete current branch''\<rparr>, CmdNil)
                    else if \<not> IsLocal br then
                      Inr (m\<lparr>statusMsg := ''Branch is remote-only''\<rparr>, CmdNil)
                    else Inr (m, CmdDeleteBranch (Repo.Path repo) (BranchInfo.Name br) True))
             else Inr (m, CmdNil)
         | None \<Rightarrow> Inr (m, CmdNil))
      else if key = ''p'' then
        (case detailRepo m of
           Some repo \<Rightarrow>
             if length (branches m) > 0 then
               (case selectedBranch m of
                  Inl e \<Rightarrow> Inl e
                | Inr br \<Rightarrow>
                    if IsLocal br then
                      Inr (m\<lparr>statusMsg := ''Branch already exists locally''\<rparr>, CmdNil)
                    else if \<not> IsRemote br then
                      Inr (m\<lparr>statusMsg := ''Branch is not on remote''\<rparr>, CmdNil)
                    else
                      Inr (m\<lparr>statusMsg := ''Creating local branch '' @ BranchInfo.Name br @ ''...''\<rparr>,
                           CmdCreateLocalBranch (Repo.Path repo) (BranchInfo.Name br)
                             (RemoteName br)))
             else Inr (m, CmdNil)
         | None \<Rightarrow> Inr (m, CmdNil))
      else Inr (m, CmdNil))"

text \<open>The keys of the command pane; the text of the input widget is \<open>cmdInputValue w\<close>.\<close>

definition commandPaneKey :: "world \<Rightarrow> model \<Rightarrow> string \<Rightarrow> panic + model \<times> cmd" where
  "commandPaneKey w m key =
     (if key = ''enter'' then
        (if cmdInputValue w \<noteq> [] \<and> \<not> cmdRunning m then
           (case detailRepo m of
              None \<Rightarrow> Inl NilDereference
            | Some repo \<Rightarrow>
                Inr (m\<lparr>cmdRunning := True,
                       cmdOutput := ''Running: '' @ cmdInputValue w @ [CHR 0x0A, CHR 0x0A]\<rparr>,
                     CmdRunCommand (Repo.Path repo) (cmdInputValue w)))
         else Inr (m, CmdNil))
      else Inr (m, CmdWidget))"

text \<open>The whole branch of \<open>Update\<close> for a key pressed in the detail view.\<close>

definition detailViewKey :: "world \<Rightarrow> model \<Rightarrow> string \<Rightarrow> panic + model \<times> cmd" where
  "detailViewKey w m key =
     (if (key = ''q'' \<or> key = ''esc'') then
        (if detailFocus m = paneCommand \<and> cmdInputValue w \<noteq> [] then Inr (m, CmdNil)
         else Inr (m\<lparr>mode := listView, detailRepo := None, detailContent := [],
                     cmdOutput := [], branches := [], detailFocus := paneStatus\<rparr>, CmdNil))
      else if key = ''tab'' then
        Inr (m\<lparr>detailFocus := goMod (detailFocus m + 1) 3\<rparr>, CmdNil)
      else if key = ''shift+tab'' then
        Inr (m\<lparr>detailFocus := goMod (detailFocus m + 2) 3\<rparr>, CmdNil)
      else if key = ''r'' \<and> detailRepo m \<noteq> None \<and> detailFocus m \<noteq> paneCommand then
        (case detailRepo m of
           Some repo \<Rightarrow>
             Inr (m, CmdBatch [CmdLoadGitDetail (Repo.Path repo), CmdLoadBranches (Repo.Path repo)])
         | None \<Rightarrow> Inr (m, CmdNil))
      else if detailFocus m = paneStatus then Inr (m, CmdWidget)
      else if detailFocus m = paneBranches then branchesPaneKey w m key
      else if detailFocus m = paneCommand then commandPaneKey w m key
      else Inr (m, CmdNil))"

subsection \<open>The reducer: a status update (update.go, \<open>case statusUpdatedMsg\<close>)\<close>

text \<open>
  The handler patches the first repository with the message's path (\<open>break\<close> ends the loop
  there) and then redraws the list. This assignment is the only place where the reducer
  writes a behind count; a scan creates repositories with Go's zero value in that field.
\<close>

fun patchStatus :: "Repo list \<Rightarrow> statusUpdatedMsg \<Rightarrow> Repo list" where
  "patchStatus [] msg = []"
| "patchStatus (r # rs) msg =
     (if Repo.Path r = statusUpdatedMsg.path msg then
        r\<lparr>Status := status msg, StatusText := msgText msg, Branch := branch msg,
          Repo.BehindCount := behindCount msg\<rparr> # rs
      else r # patchStatus rs msg)"

definition updateStatusUpdated :: "model \<Rightarrow> statusUpdatedMsg \<Rightarrow> model" where
  "updateStatusUpdated m msg = m\<lparr>repos := patchStatus (repos m) msg\<rparr>"

subsection \<open>A small scenario\<close>

text \<open>
  Go's zero value of the reducer's state with its maps allocated, a world in which git has
  nothing new, and two favourite repositories. The properties below are tried on them.
\<close>

definition zeroModel :: model where
  "zeroModel =
     \<lparr>repos = [], pulling = False, statusMsg = [], errorMsg = [], mode = listView,
      previousMode = listView, savedFilter = [], detailRepo = None, detailContent = [],
      branches = [], branchIndex = 0, targetBranch = [], actionIndex = 0, hasChanges = False,
      filterDirty = False, filterBehind = False, detailFocus = paneStatus, cmdOutput = [],
      cmdRunning = False, groupsMap = Map.empty, currentGroup = None,
      pendingPulls = Map.empty, pullResults = [], showPullResults = True,
      pullResultsCursor = 0, pullExpanded = Map.empty\<rparr>"

definition quietWorld :: world where
  "quietWorld =
     \<lparr>getHeadCommit = (\<lambda>p. ''c0''),
      getCommitsBetween = (\<lambda>p old new. []),
      getFilesChangedCount = (\<lambda>p old new. 0),
      statusPorcelain = (\<lambda>p. []),
      listFilterState = Unfiltered,
      listFilterValue = [],
      listSelectedItem = None,
      cmdInputValue = []\<rparr>"

definition repoA :: Repo where
  "repoA = \<lparr>Path = ''/r/a'', Name = ''a'', Branch = ''main'', Status = StatusClean,
            StatusText = [], IsFavorite = True, PullResult = [], BehindCount = 0\<rparr>"

definition repoB :: Repo where
  "repoB = \<lparr>Path = ''/r/b'', Name = ''b'', Branch = ''main'', Status = StatusDirty,
            StatusText = ''2 changed'', IsFavorite = True, PullResult = [], BehindCount = 3\<rparr>"

definition pulledMsg :: "string \<Rightarrow> pullCompleteMsg" where
  "pulledMsg p = \<lparr>path = p, result = ''Fast-forward'', shortResult = ''updated'', err = None\<rparr>"

definition commit1 :: CommitInfo where
  "commit1 = \<lparr>Hash = ''c1'', Message = ''fix'', Author = ''ann'', Time = ''2 hours ago''\<rparr>"

definition busyWorld :: world where
  "busyWorld =
     quietWorld\<lparr>getHeadCommit := (\<lambda>p. ''c1''),
                getCommitsBetween := (\<lambda>p old new. [commit1]),
                getFilesChangedCount := (\<lambda>p old new. 2)\<rparr>"

definition oneCommit :: "string \<Rightarrow> commitEntry list" where
  "oneCommit p = [\<lparr>ref = ''c0'', info = commit1, files = 1\<rparr>]"

definition mainBranch :: BranchInfo where
  "mainBranch = \<lparr>Name = ''main'', IsLocal = True, IsRemote = True, IsCurrent = True,
                 RemoteName = ''origin/main''\<rparr>"

definition devBranch :: BranchInfo where
  "devBranch = \<lparr>Name = ''dev'', IsLocal = True, IsRemote = False, IsCurrent = False,
                RemoteName = []\<rparr>"

definition detailModel :: "int \<Rightarrow> model" where
  "detailModel i =
     zeroModel\<lparr>mode := detailView, detailFocus := paneBranches, detailRepo := Some repoA,
               branches := [mainBranch, devBranch], branchIndex := i\<rparr>"

text \<open>The BranchInfo one pass of the first loop of \<open>loadBranches\<close> appends.\<close>

definition localInfo :: "string \<Rightarrow> string list \<Rightarrow> string \<times> string \<Rightarrow> BranchInfo" where
  "localInfo cur rb entry = last (fst (addLocalBranch cur rb entry ([], {})))"

section \<open>Properties\<close>

subsection \<open>Supporting lemmas: the pattern matcher and the integer parser\<close>

lemma firstSome_SomeD: "firstSome f xs = Some r \<Longrightarrow> \<exists>x\<in>set xs. f x = Some r"
  by (induction xs) (auto split: option.splits)

lemma candidates_le: "k \<in> set (candidates q n) \<Longrightarrow> k \<le> n"
  by (cases q) (auto split: if_splits)

lemma take_takeWhile_all:
  assumes "k \<le> length (takeWhile P s)"
  shows "list_all P (take k s)"
proof -
  have "take k (takeWhile P s @ dropWhile P s) = take k (takeWhile P s)"
    using assms by (simp del: takeWhile_dropWhile_id)
  then have "take k s = take k (takeWhile P s)" by simp
  then have "set (take k s) \<subseteq> set (takeWhile P s)" by (simp add: set_take_subset)
  then show ?thesis by (auto simp: list_all_iff dest: set_takeWhileD)
qed

lemma matchItems_groups:
  "matchItems its s = Some gs \<Longrightarrow> list_all2 (\<lambda>cls g. list_all cls g) (capturedClasses its) gs"
proof (induction its arbitrary: s gs)
  case Nil
  then show ?case by simp
next
  case (Cons it its)
  obtain cls q captured where it: "it = ReItem cls q captured" by (cases it)
  from Cons.prems it obtain n where
    n: "n \<in> set (candidates q (length (takeWhile cls s)))" and
    r: "(case matchItems its (drop n s) of None \<Rightarrow> None
         | Some groups \<Rightarrow> Some (if captured then take n s # groups else groups)) = Some gs"
    by (auto dest!: firstSome_SomeD)
  from r obtain groups where g: "matchItems its (drop n s) = Some groups"
    and gs: "gs = (if captured then take n s # groups else groups)"
    by (auto split: option.splits)
  have "list_all cls (take n s)"
    using n by (intro take_takeWhile_all candidates_le)
  with Cons.IH [OF g] gs it show ?case by simp
qed

lemma statPattern_digits:
  assumes "FindStringSubmatch statPattern line = Some [m1, m2, m3, m4]"
  shows "list_all isDigit m2"
  using matchItems_groups [of statPattern line "[m1, m2, m3, m4]"] assms
  by (simp add: FindStringSubmatch_def statPattern_def)

lemma decimal_foldl_nonneg:
  "0 \<le> acc \<Longrightarrow> list_all isDigit ds \<Longrightarrow> 0 \<le> foldl (\<lambda>acc c. acc * 10 + digitVal c) acc ds"
proof (induction ds arbitrary: acc)
  case Nil then show ?case by simp
next
  case (Cons d ds)
  then have "0 \<le> acc * 10 + digitVal d" by (simp add: isDigit_def digitVal_def)
  with Cons show ?case by simp
qed

lemma decimal_nonneg: "list_all isDigit ds \<Longrightarrow> 0 \<le> decimal ds"
  unfolding decimal_def by (rule decimal_foldl_nonneg) simp_all

lemma Atoi_digits:
  assumes "ds \<noteq> []" "list_all isDigit ds"
  shows "Atoi ds = (if decimal ds \<le> maxInt then Some (decimal ds) else None)"
proof -
  have "isDigit (hd ds)" using assms by (cases ds) simp_all
  then have "hd ds \<noteq> CHR ''+''" "hd ds \<noteq> CHR ''-''"
    by (auto simp: isDigit_def)
  moreover have "0 \<le> decimal ds" using assms(2) by (rule decimal_nonneg)
  ultimately show ?thesis using assms
    by (simp add: Atoi_def Let_def minInt_def)
qed

lemma goDiv_nonneg: "0 \<le> a \<Longrightarrow> goDiv a 2 = a div 2"
  by (cases "a = 0") (simp_all add: goDiv_def)

text \<open>A binary-file line has no count right after the bar: nothing is captured for the
  count, and both numbers stay 0.\<close>

lemma binary_line:
  "FindStringSubmatch statPattern '' img.png | Bin 100 -> 123 bytes''
     = Some [''img.png'', [], [], []]
   \<and> parseGitStatOutput '' img.png | Bin 100 -> 123 bytes''
     = [\<lparr>FileChange.Path = ''img.png'', Additions = 0, Deletions = 0\<rparr>]"
  by code_simp

subsection \<open>Supporting lemmas: the pending-pull map through a round\<close>

lemma labelRepo_frame:
  "pendingPulls (snd (labelRepo m msg)) = pendingPulls m"
  "pullResults (snd (labelRepo m msg)) = pullResults m"
  by (simp_all add: labelRepo_def split: option.splits)

lemma collectPullResult_pending:
  "pendingPulls (collectPullResult w n m msg) = (pendingPulls m)(pullCompleteMsg.path msg := None)"
  by (auto simp: collectPullResult_def Let_def split: option.splits)

lemma finishPull_frame:
  "pendingPulls (finishPull w n d m msg) = pendingPulls m"
  "pullResults (finishPull w n d m msg) = pullResults m"
  by (simp_all add: finishPull_def Let_def)

lemma updatePullComplete_pending:
  "pendingPulls (fst (updatePullComplete w m msg)) = (pendingPulls m)(pullCompleteMsg.path msg := None)"
proof -
  obtain n m1 where l: "labelRepo m msg = (n, m1)" by (cases "labelRepo m msg")
  then have "pendingPulls m1 = pendingPulls m" using labelRepo_frame(1) [of m msg] by simp
  with l show ?thesis
    by (simp add: updatePullComplete_def Let_def finishPull_frame collectPullResult_pending)
qed

lemma pullAllDone_iff:
  "pullAllDone w m msg \<longleftrightarrow> dom (pendingPulls m) \<subseteq> {pullCompleteMsg.path msg}"
proof -
  obtain n m1 where l: "labelRepo m msg = (n, m1)" by (cases "labelRepo m msg")
  then have "pendingPulls m1 = pendingPulls m" using labelRepo_frame(1) [of m msg] by simp
  with l show ?thesis
    by (auto simp: pullAllDone_def collectPullResult_pending)
qed

lemma updatePullComplete_dom:
  "dom (pendingPulls (fst (updatePullComplete w m msg))) = dom (pendingPulls m) - {pullCompleteMsg.path msg}"
  by (simp add: updatePullComplete_pending)

lemma eventPaths_simps:
  "eventPaths [] = {}"
  "eventPaths ((w, msg) # es) = insert (pullCompleteMsg.path msg) (eventPaths es)"
  by (simp_all add: eventPaths_def)

lemma runPulls_dom:
  "dom (pendingPulls (runPulls m es)) = dom (pendingPulls m) - eventPaths es"
proof (induction m es rule: runPulls.induct)
  case (1 m)
  then show ?case by (simp add: eventPaths_simps)
next
  case (2 m w msg es)
  have "dom (pendingPulls (runPulls m ((w, msg) # es)))
          = dom (pendingPulls (fst (updatePullComplete w m msg))) - eventPaths es"
    using 2 by simp
  also have "\<dots> = dom (pendingPulls m) - eventPaths ((w, msg) # es)"
    unfolding updatePullComplete_dom eventPaths_simps by blast
  finally show ?case .
qed

lemma pullTrace_last:
  "es \<noteq> [] \<Longrightarrow>
     snd (snd (last (pullTrace m es))) \<longleftrightarrow> dom (pendingPulls m) \<subseteq> eventPaths es"
proof (induction m es rule: pullTrace.induct)
  case (1 m)
  then show ?case by simp
next
  case (2 m w msg es)
  show ?case
  proof (cases "es = []")
    case True
    then show ?thesis by (simp add: pullAllDone_iff eventPaths_simps)
  next
    case False
    then have ne: "pullTrace (fst (updatePullComplete w m msg)) es \<noteq> []"
      by (cases es) auto
    have "snd (snd (last (pullTrace m ((w, msg) # es))))
            \<longleftrightarrow> snd (snd (last (pullTrace (fst (updatePullComplete w m msg)) es)))"
      using ne by simp
    also have "\<dots> \<longleftrightarrow> dom (pendingPulls (fst (updatePullComplete w m msg))) \<subseteq> eventPaths es"
      using 2 False by simp
    also have "\<dots> \<longleftrightarrow> dom (pendingPulls m) \<subseteq> eventPaths ((w, msg) # es)"
      unfolding updatePullComplete_dom eventPaths_simps by blast
    finally show ?thesis .
  qed
qed

lemma removals_Nil: "removals p [] = 0"
  by (simp add: removals_def)

lemma removals_Cons:
  "removals p (e # tr) = (if fst e = p \<and> fst (snd e) then 1 else 0) + removals p tr"
  by (simp add: removals_def)

lemma removals_pullTrace:
  "removals p (pullTrace m es) = (if p \<in> dom (pendingPulls m) \<and> p \<in> eventPaths es then 1 else 0)"
proof (induction m es rule: pullTrace.induct)
  case (1 m)
  then show ?case by (simp add: removals_Nil eventPaths_simps)
next
  case (2 m w msg es)
  have ih: "removals p (pullTrace (fst (updatePullComplete w m msg)) es)
      = (if p \<in> dom (pendingPulls m) - {pullCompleteMsg.path msg} \<and> p \<in> eventPaths es then 1 else 0)"
    using 2 unfolding updatePullComplete_dom by simp
  have hd: "(pendingPulls m (pullCompleteMsg.path msg) \<noteq> None)
              \<longleftrightarrow> pullCompleteMsg.path msg \<in> dom (pendingPulls m)"
    by (simp add: domIff)
  show ?case
    unfolding pullTrace.simps removals_Cons ih eventPaths_simps fst_conv snd_conv hd
    by auto
qed

lemma capturePulls_lookup:
  "capturePulls w rs pp p =
     (if p \<in> Repo.Path ` set rs then Some (getHeadCommit w p) else pp p)"
  by (induction rs arbitrary: pp) auto

lemma capturePulls_dom: "dom (capturePulls w rs pp) = dom pp \<union> Repo.Path ` set rs"
  by (auto simp: capturePulls_lookup domIff split: if_splits)

lemma pullCmdsFor_length: "length (pullCmdsFor rs) = length rs"
  by (simp add: pullCmdsFor_def)

lemma pullGroup_pending:
  "pendingPulls (fst (pullGroup w m g)) = capturePulls w (getGroupRepos m g) (pendingPulls m)"
  by (simp add: pullGroup_def Let_def)

lemma getGroupRepos_frame:
  "getGroupRepos (m\<lparr>pullResults := x, pendingPulls := y\<rparr>) g = getGroupRepos m g"
  by (simp add: getGroupRepos_def split: option.splits)

lemma keyP_pending:
  "pendingPulls (fst (keyP w m)) = capturePulls w (batchRepos w m) Map.empty"
  by (auto simp: keyP_def batchRepos_def Let_def pullGroup_pending getGroupRepos_frame
           split: option.splits listItem.splits)

lemma keyp_pending:
  "listSelectedItem w = Some (RepoItem item) \<Longrightarrow>
     pendingPulls (fst (keyp w m)) = (pendingPulls m)(Repo.Path item \<mapsto> getHeadCommit w (Repo.Path item))"
  by (simp add: keyp_def)

lemma updatePullComplete_pulling:
  "pulling (fst (updatePullComplete w m msg)) =
     (if err msg \<noteq> None then \<not> pullAllDone w m msg
      else if pullAllDone w m msg then False else pulling m)"
proof -
  obtain n m1 where l: "labelRepo m msg = (n, m1)" by (cases "labelRepo m msg")
  have p1: "pulling m1 = pulling m"
    using l by (auto simp: labelRepo_def split: option.splits if_splits)
  have p2: "pulling (collectPullResult w n m1 msg) = pulling m1"
    by (simp add: collectPullResult_def Let_def split: option.splits)
  show ?thesis
    using l p1 p2 by (simp add: updatePullComplete_def pullAllDone_def Let_def finishPull_def)
qed

lemma runPulls_pulling:
  assumes "es \<noteq> []" and "dom (pendingPulls m) \<noteq> {} \<longrightarrow> pulling m"
  shows "pulling (runPulls m es) \<longleftrightarrow> \<not> dom (pendingPulls m) \<subseteq> eventPaths es"
  using assms
proof (induction m es rule: runPulls.induct)
  case (1 m)
  then show ?case by simp
next
  case (2 m w msg es)
  let ?m' = "fst (updatePullComplete w m msg)"
  have inv: "dom (pendingPulls ?m') \<noteq> {} \<longrightarrow> pulling ?m'"
    using 2(3) unfolding updatePullComplete_pulling pullAllDone_iff updatePullComplete_dom
    by auto
  show ?case
  proof (cases "es = []")
    case True
    then show ?thesis
      using 2(3) by (auto simp: updatePullComplete_pulling pullAllDone_iff eventPaths_simps)
  next
    case False
    have "pulling (runPulls m ((w, msg) # es)) \<longleftrightarrow> pulling (runPulls ?m' es)" by simp
    also have "\<dots> \<longleftrightarrow> \<not> dom (pendingPulls ?m') \<subseteq> eventPaths es"
      using 2(1) [OF False inv] .
    also have "\<dots> \<longleftrightarrow> \<not> dom (pendingPulls m) \<subseteq> eventPaths ((w, msg) # es)"
      unfolding updatePullComplete_dom eventPaths_simps by blast
    finally show ?thesis .
  qed
qed

lemma updatePullComplete_results:
  "pullResults (fst (updatePullComplete w m msg)) =
     (case pendingPulls m (pullCompleteMsg.path msg) of
        None \<Rightarrow> pullResults m
      | Some oldHead \<Rightarrow>
          (if err msg = None \<and> \<not> Contains (result msg) ''Already up to date''
              \<and> getCommitsBetween w (pullCompleteMsg.path msg) oldHead
                    (getHeadCommit w (pullCompleteMsg.path msg)) \<noteq> []
           then pullResults m @
                  [\<lparr>RepoPath = pullCompleteMsg.path msg,
                    RepoName = fst (labelRepo m msg),
                    Commits = getCommitsBetween w (pullCompleteMsg.path msg) oldHead
                                (getHeadCommit w (pullCompleteMsg.path msg)),
                    FilesChanged = getFilesChangedCount w (pullCompleteMsg.path msg) oldHead
                                (getHeadCommit w (pullCompleteMsg.path msg)),
                    Updated = True\<rparr>]
           else pullResults m))"
proof -
  obtain n m1 where l: "labelRepo m msg = (n, m1)" by (cases "labelRepo m msg")
  have f: "pendingPulls m1 = pendingPulls m" "pullResults m1 = pullResults m"
    using l labelRepo_frame [of m msg] by simp_all
  show ?thesis
    using l f
    by (simp add: updatePullComplete_def Let_def finishPull_frame collectPullResult_def
             split: option.splits)
qed

lemma specRange_same: "specRange h x x = []"
  by (induction h) (auto simp: specRange_def)

lemma specWorld_same: "getCommitsBetween (specWorld h w) p x x = []"
  by (simp add: specWorld_def specRange_same)

lemma runPulls_results_origin:
  "r \<in> set (pullResults (runPulls m es)) \<Longrightarrow>
     r \<in> set (pullResults m) \<or>
     (\<exists>w msg old. (w, msg) \<in> set es \<and> pendingPulls m (RepoPath r) = Some old
        \<and> pullCompleteMsg.path msg = RepoPath r
        \<and> Commits r = getCommitsBetween w (RepoPath r) old (getHeadCommit w (RepoPath r)))"
proof (induction m es rule: runPulls.induct)
  case (1 m)
  then show ?case by simp
next
  case (2 m w msg es)
  let ?m' = "fst (updatePullComplete w m msg)"
  from 2 have "r \<in> set (pullResults ?m') \<or>
     (\<exists>w' msg' old. (w', msg') \<in> set es \<and> pendingPulls ?m' (RepoPath r) = Some old
        \<and> pullCompleteMsg.path msg' = RepoPath r
        \<and> Commits r = getCommitsBetween w' (RepoPath r) old (getHeadCommit w' (RepoPath r)))"
    by simp
  then show ?case
  proof
    assume r: "r \<in> set (pullResults ?m')"
    show ?thesis
    proof (cases "r \<in> set (pullResults m)")
      case True
      then show ?thesis by simp
    next
      case False
      with r obtain old where old: "pendingPulls m (pullCompleteMsg.path msg) = Some old"
        and req: "r = \<lparr>RepoPath = pullCompleteMsg.path msg,
                    RepoName = fst (labelRepo m msg),
                    Commits = getCommitsBetween w (pullCompleteMsg.path msg) old
                                (getHeadCommit w (pullCompleteMsg.path msg)),
                    FilesChanged = getFilesChangedCount w (pullCompleteMsg.path msg) old
                                (getHeadCommit w (pullCompleteMsg.path msg)),
                    Updated = True\<rparr>"
        unfolding updatePullComplete_results
        by (auto split: option.splits if_splits)
      have "(w, msg) \<in> set ((w, msg) # es)" by simp
      moreover have "pendingPulls m (RepoPath r) = Some old" using old req by simp
      moreover have "pullCompleteMsg.path msg = RepoPath r" using req by simp
      moreover have "Commits r = getCommitsBetween w (RepoPath r) old (getHeadCommit w (RepoPath r))"
        using req by simp
      ultimately show ?thesis by blast
    qed
  next
    assume "\<exists>w' msg' old. (w', msg') \<in> set es \<and> pendingPulls ?m' (RepoPath r) = Some old
        \<and> pullCompleteMsg.path msg' = RepoPath r
        \<and> Commits r = getCommitsBetween w' (RepoPath r) old (getHeadCommit w' (RepoPath r))"
    then obtain w' msg' old where h: "(w', msg') \<in> set es"
        "pendingPulls ?m' (RepoPath r) = Some old"
        "pullCompleteMsg.path msg' = RepoPath r"
        "Commits r = getCommitsBetween w' (RepoPath r) old (getHeadCommit w' (RepoPath r))"
      by blast
    from h(2) have "pendingPulls m (RepoPath r) = Some old"
      unfolding updatePullComplete_pending by (simp split: if_splits)
    moreover have "(w', msg') \<in> set ((w, msg) # es)" using h(1) by simp
    ultimately show ?thesis using h(3,4) by blast
  qed
qed

subsection \<open>Supporting lemmas: filters, sorting, branch reconciliation, detail keys\<close>

lemma Atoi_zero: "Atoi (TrimSpace ''0'') = Some 0"
  by code_simp

lemma filterRepos_eq:
  "filterRepos fd fb rs
     = filter (\<lambda>r. (fd \<longrightarrow> Status r = StatusDirty) \<and> (fb \<longrightarrow> Repo.BehindCount r \<noteq> 0)) rs"
  by (induction rs) auto

text \<open>
  Behind counts are never negative: \<open>git rev-list --count\<close> prints a count, that is
  digits, \<open>checkGitStatus\<close> then reports a number that is not negative, and the status
  handler, the only writer of the field, keeps the property.
\<close>

lemma checkGitStatus_behind_nonneg:
  assumes "list_all isDigit (TrimSpace (stdout bh))"
  shows "0 \<le> behindCount (checkGitStatus p br bh st)"
proof -
  have "case Atoi (TrimSpace (stdout bh)) of Some cnt \<Rightarrow> 0 \<le> cnt | None \<Rightarrow> True"
  proof (cases "TrimSpace (stdout bh) = []")
    case True
    then show ?thesis by (simp add: Atoi_def)
  next
    case False
    then show ?thesis
      using Atoi_digits [OF False assms] decimal_nonneg [OF assms] by simp
  qed
  then show ?thesis
    by (auto simp: checkGitStatus_def Let_def split: option.splits)
qed

lemma patchStatus_nonneg:
  assumes "\<forall>r\<in>set rs. 0 \<le> Repo.BehindCount r" and "0 \<le> behindCount msg"
  shows "\<forall>r\<in>set (patchStatus rs msg). 0 \<le> Repo.BehindCount r"
  using assms by (induction rs) auto

lemma updateStatusUpdated_nonneg:
  assumes "\<forall>r\<in>set (repos m). 0 \<le> Repo.BehindCount r"
    and "list_all isDigit (TrimSpace (stdout bh))"
  shows "\<forall>r\<in>set (repos (updateStatusUpdated m (checkGitStatus p br bh st))).
           0 \<le> Repo.BehindCount r"
  unfolding updateStatusUpdated_def
  using patchStatus_nonneg [OF assms(1) checkGitStatus_behind_nonneg [OF assms(2)]]
  by simp

lemma mset_moveLeft: "mset (moveLeft lt x ys) = add_mset x (mset ys)"
  by (induction ys) auto

lemma mset_foldl_moveLeft:
  "mset (foldl (\<lambda>acc x. moveLeft lt x acc) acc xs) = mset acc + mset xs"
  by (induction xs arbitrary: acc) (auto simp: mset_moveLeft)

lemma mset_sortSlice: "mset (sortSlice lt xs) = mset xs"
  by (simp add: sortSlice_def mset_foldl_moveLeft)

lemma set_sortSlice: "set (sortSlice lt xs) = set xs"
  using mset_sortSlice [of lt xs] by (metis set_mset_mset)

lemma addLocalBranch_fst:
  "fst (addLocalBranch cur rb e acc) = fst acc @ [localInfo cur rb e]"
  by (cases e; cases acc) (simp add: addLocalBranch_def localInfo_def Let_def)

lemma localInfo_props:
  "IsLocal (localInfo cur rb e)" "IsCurrent (localInfo cur rb e) \<longleftrightarrow> fst e = cur"
  by (cases e; simp add: addLocalBranch_def localInfo_def Let_def)+

lemma foldl_addLocal_fst:
  "fst (foldl (\<lambda>acc entry. addLocalBranch cur rb entry acc) acc es)
     = fst acc @ map (localInfo cur rb) es"
  by (induction es arbitrary: acc) (simp_all add: addLocalBranch_fst)

lemma addRemoteBranch_set:
  "b \<in> set (addRemoteBranch seen r bs) \<Longrightarrow>
     b \<in> set bs \<or> (\<not> IsLocal b \<and> IsRemote b \<and> \<not> IsCurrent b)"
  by (auto simp: addRemoteBranch_def Let_def split: if_splits)

lemma foldl_addRemote:
  "b \<in> set (foldl (\<lambda>acc r. addRemoteBranch seen r acc) bs rs) \<Longrightarrow>
     b \<in> set bs \<or> (\<not> IsLocal b \<and> IsRemote b \<and> \<not> IsCurrent b)"
proof (induction rs arbitrary: bs)
  case Nil
  then show ?case by simp
next
  case (Cons r rs)
  from Cons.prems have "b \<in> set (foldl (\<lambda>acc r. addRemoteBranch seen r acc) (addRemoteBranch seen r bs) rs)"
    by simp
  from Cons.IH [OF this] show ?case
    using addRemoteBranch_set [of b seen r bs] by blast
qed

lemma foldl_addRemote_current:
  "filter IsCurrent (foldl (\<lambda>acc r. addRemoteBranch seen r acc) bs rs) = filter IsCurrent bs"
  by (induction rs arbitrary: bs) (simp_all add: addRemoteBranch_def Let_def)

lemma distinct_filter_fst:
  "distinct (map fst es) \<Longrightarrow> length (filter (\<lambda>e. fst e = c) es) \<le> 1"
proof (induction es)
  case Nil
  then show ?case by simp
next
  case (Cons e es)
  have ih: "length (filter (\<lambda>e. fst e = c) es) \<le> 1"
    using Cons by simp
  show ?case
  proof (cases "fst e = c")
    case True
    with Cons.prems have "c \<notin> fst ` set es" by simp
    then have "\<forall>x\<in>set es. fst x \<noteq> c" by force
    then have "filter (\<lambda>e. fst e = c) es = []"
      by (simp add: filter_empty_conv)
    with True show ?thesis by simp
  next
    case False
    with ih show ?thesis by simp
  qed
qed

lemma buildBranches_props:
  assumes "distinct (map fst lb)"
  shows "\<forall>b\<in>set (buildBranches cur lb rb). IsLocal b \<or> IsRemote b"
    and "length (filter IsCurrent (buildBranches cur lb rb)) \<le> 1"
    and "\<forall>b\<in>set (buildBranches cur lb rb). IsCurrent b \<longrightarrow> IsLocal b"
proof -
  obtain bs seen where f: "foldl (\<lambda>acc entry. addLocalBranch cur rb entry acc) ([], {}) lb = (bs, seen)"
    by (cases "foldl (\<lambda>acc entry. addLocalBranch cur rb entry acc) ([], {}) lb")
  have bs: "bs = map (localInfo cur rb) lb"
    using foldl_addLocal_fst [of cur rb "([], {})" lb] f by simp
  have bb: "buildBranches cur lb rb = foldl (\<lambda>acc r. addRemoteBranch seen r acc) bs rb"
    using f by (simp add: buildBranches_def)
  have loc: "\<forall>b\<in>set bs. IsLocal b" using bs by (auto simp: localInfo_props)
  show "\<forall>b\<in>set (buildBranches cur lb rb). IsLocal b \<or> IsRemote b"
    unfolding bb using foldl_addRemote [of _ seen bs rb] loc by blast
  show "\<forall>b\<in>set (buildBranches cur lb rb). IsCurrent b \<longrightarrow> IsLocal b"
    unfolding bb using foldl_addRemote [of _ seen bs rb] loc by blast
  have "filter IsCurrent bs = map (localInfo cur rb) (filter (\<lambda>e. fst e = cur) lb)"
    unfolding bs by (simp add: filter_map comp_def localInfo_props)
  then have "length (filter IsCurrent bs) \<le> 1"
    using distinct_filter_fst [OF assms, of cur] by simp
  then show "length (filter IsCurrent (buildBranches cur lb rb)) \<le> 1"
    unfolding bb foldl_addRemote_current .
qed

lemma length_filter_mset:
  assumes "mset xs = mset ys"
  shows "length (filter P xs) = length (filter P ys)"
proof -
  have "mset (filter P xs) = mset (filter P ys)"
    using assms by (simp only: mset_filter)
  then have "size (mset (filter P xs)) = size (mset (filter P ys))" by simp
  then show ?thesis by (simp only: size_mset)
qed

lemma branchesPaneKey_delete:
  assumes "branchesPaneKey w m key = Inr (m', c)"
    and "CmdDeleteBranch p b force \<in> set (dispatched c)"
  shows "\<exists>repo br. detailRepo m = Some repo \<and> selectedBranch m = Inr br
           \<and> p = Repo.Path repo \<and> b = BranchInfo.Name br
           \<and> \<not> IsCurrent br \<and> IsLocal br
           \<and> ((key = ''x'' \<and> \<not> IsRemote br \<and> \<not> force) \<or> (key = ''X'' \<and> force))"
  using assms unfolding branchesPaneKey_def
  by (auto simp: Let_def split: if_splits option.splits sum.splits)

lemma commandPaneKey_no_delete:
  assumes "commandPaneKey w m key = Inr (m', c)"
  shows "CmdDeleteBranch p b force \<notin> set (dispatched c)"
  using assms unfolding commandPaneKey_def
  by (auto split: if_splits option.splits)

lemma detailViewKey_delete:
  assumes "detailViewKey w m key = Inr (m', c)"
    and "CmdDeleteBranch p b force \<in> set (dispatched c)"
  shows "detailFocus m = paneBranches \<and> branchesPaneKey w m key = Inr (m', c)"
  using assms commandPaneKey_no_delete [of w m key m' c p b force]
  unfolding detailViewKey_def
  by (auto split: if_splits option.splits)

lemma branchesPaneKey_current:
  assumes "key = ''x'' \<or> key = ''X''" and "selectedBranch m = Inr br" and "IsCurrent br"
  shows "\<exists>m'. branchesPaneKey w m key = Inr (m', CmdNil) \<and> m'\<lparr>statusMsg := statusMsg m\<rparr> = m"
  using assms unfolding branchesPaneKey_def
  by (auto split: option.splits)

lemma detailViewKey_branches:
  assumes "key = ''x'' \<or> key = ''X''" and "detailFocus m = paneBranches"
  shows "detailViewKey w m key = branchesPaneKey w m key"
  using assms unfolding detailViewKey_def
  by (auto simp: paneBranches_def paneStatus_def)

subsection \<open>Batch pulls: completion, aggregation, stale events\<close>

text \<open>
  C1. A round of pull completions is processed from any state \<open>m\<close>; the paths entered into
  the pending map are \<open>dom (pendingPulls m)\<close>. The \<open>allDone\<close> of the last event processed
  holds if and only if every such path has had exactly one completion event that removed its
  entry; equivalently, if and only if every such path occurs among the events, whatever
  their order. No entry is removed twice. The \<open>pulling\<close> flag of the state follows
  \<open>allDone\<close>. Key \<open>P\<close> enters exactly the paths of the repositories it pulls; writing a path
  that is already in the map replaces the head stored for it, so the map holds one entry
  per path.
\<close>

theorem C1_batch_done:
  assumes "es \<noteq> []"
  shows "(snd (snd (last (pullTrace m es))) \<longleftrightarrow>
            (\<forall>p \<in> dom (pendingPulls m). removals p (pullTrace m es) = 1))
       \<and> (snd (snd (last (pullTrace m es))) \<longleftrightarrow> dom (pendingPulls m) \<subseteq> eventPaths es)
       \<and> (\<forall>p. removals p (pullTrace m es) \<le> 1)
       \<and> ((dom (pendingPulls m) \<noteq> {} \<longrightarrow> pulling m) \<longrightarrow>
            (pulling (runPulls m es) \<longleftrightarrow> \<not> snd (snd (last (pullTrace m es)))))
       \<and> dom (pendingPulls (fst (keyP w0 m0))) = Repo.Path ` set (batchRepos w0 m0)
       \<and> (\<forall>p \<in> Repo.Path ` set rs. capturePulls w rs pp p = Some (getHeadCommit w p))
       \<and> (listSelectedItem w = Some (RepoItem item) \<longrightarrow>
            pendingPulls (fst (keyp w m)) (Repo.Path item) = Some (getHeadCommit w (Repo.Path item))
            \<and> dom (pendingPulls (fst (keyp w m))) = insert (Repo.Path item) (dom (pendingPulls m)))"
proof -
  have a: "snd (snd (last (pullTrace m es))) \<longleftrightarrow> dom (pendingPulls m) \<subseteq> eventPaths es"
    using assms by (rule pullTrace_last)
  have b: "(\<forall>p \<in> dom (pendingPulls m). removals p (pullTrace m es) = 1)
             \<longleftrightarrow> dom (pendingPulls m) \<subseteq> eventPaths es"
    by (auto simp: removals_pullTrace)
  have c: "\<forall>p. removals p (pullTrace m es) \<le> 1"
    by (simp add: removals_pullTrace)
  have d: "(dom (pendingPulls m) \<noteq> {} \<longrightarrow> pulling m) \<longrightarrow>
            (pulling (runPulls m es) \<longleftrightarrow> \<not> snd (snd (last (pullTrace m es))))"
    using runPulls_pulling [OF assms] a by blast
  have e: "dom (pendingPulls (fst (keyP w0 m0))) = Repo.Path ` set (batchRepos w0 m0)"
    by (simp add: keyP_pending capturePulls_dom)
  have f: "\<forall>p \<in> Repo.Path ` set rs. capturePulls w rs pp p = Some (getHeadCommit w p)"
    by (simp add: capturePulls_lookup)
  have g: "listSelectedItem w = Some (RepoItem item) \<longrightarrow>
            pendingPulls (fst (keyp w m)) (Repo.Path item) = Some (getHeadCommit w (Repo.Path item))
            \<and> dom (pendingPulls (fst (keyp w m))) = insert (Repo.Path item) (dom (pendingPulls m))"
    by (simp add: keyp_pending)
  from a b c d e f g show ?thesis by blast
qed

text \<open>The two favourites are pulled with \<open>P\<close>; \<open>b\<close> completes before \<open>a\<close>.\<close>

theorem C1_batch_done_witness:
  "[(quietWorld, pulledMsg ''/r/b''), (quietWorld, pulledMsg ''/r/a'')] \<noteq> []
   \<and> pullTrace (fst (keyP quietWorld (zeroModel\<lparr>repos := [repoA, repoB]\<rparr>)))
        [(quietWorld, pulledMsg ''/r/b''), (quietWorld, pulledMsg ''/r/a'')]
      = [(''/r/b'', True, False), (''/r/a'', True, True)]
   \<and> dom (pendingPulls (fst (keyP quietWorld (zeroModel\<lparr>repos := [repoA, repoB]\<rparr>))))
      = {''/r/a'', ''/r/b''}
   \<and> removals ''/r/a'' (pullTrace (fst (keyP quietWorld (zeroModel\<lparr>repos := [repoA, repoB]\<rparr>)))
        [(quietWorld, pulledMsg ''/r/b''), (quietWorld, pulledMsg ''/r/a'')]) = 1
   \<and> removals ''/r/b'' (pullTrace (fst (keyP quietWorld (zeroModel\<lparr>repos := [repoA, repoB]\<rparr>)))
        [(quietWorld, pulledMsg ''/r/b''), (quietWorld, pulledMsg ''/r/a'')]) = 1
   \<and> \<not> pulling (runPulls (fst (keyP quietWorld (zeroModel\<lparr>repos := [repoA, repoB]\<rparr>)))
        [(quietWorld, pulledMsg ''/r/b''), (quietWorld, pulledMsg ''/r/a'')])"
proof -
  let ?m = "fst (keyP quietWorld (zeroModel\<lparr>repos := [repoA, repoB]\<rparr>))"
  let ?es = "[(quietWorld, pulledMsg ''/r/b''), (quietWorld, pulledMsg ''/r/a'')]"
  have ne: "?es \<noteq> []" by simp
  have tr: "pullTrace ?m ?es = [(''/r/b'', True, False), (''/r/a'', True, True)]"
    by (simp add: keyP_def zeroModel_def quietWorld_def repoA_def repoB_def Let_def
          pullAllDone_def updatePullComplete_def labelRepo_def collectPullResult_def
          finishPull_def pulledMsg_def)
  have dm: "dom (pendingPulls ?m) = {''/r/a'', ''/r/b''}"
    by (auto simp: keyP_def zeroModel_def quietWorld_def repoA_def repoB_def Let_def)
  have pl: "pulling ?m"
    by (simp add: keyP_def zeroModel_def quietWorld_def repoA_def repoB_def Let_def)
  have ra: "removals ''/r/a'' (pullTrace ?m ?es) = 1"
    unfolding tr by (simp add: removals_def)
  have rb: "removals ''/r/b'' (pullTrace ?m ?es) = 1"
    unfolding tr by (simp add: removals_def)
  have ld: "snd (snd (last (pullTrace ?m ?es)))"
    unfolding tr by simp
  have "(dom (pendingPulls ?m) \<noteq> {} \<longrightarrow> pulling ?m) \<longrightarrow>
          (pulling (runPulls ?m ?es) \<longleftrightarrow> \<not> snd (snd (last (pullTrace ?m ?es))))"
    using C1_batch_done [OF ne, of ?m] by blast
  with pl ld have np: "\<not> pulling (runPulls ?m ?es)" by blast
  from ne tr dm ra rb np show ?thesis by blast
qed

text \<open>
  C2. Processing a pull completion appends one entry to the result list if and only if the
  pull returned no error, its output does not contain ``Already up to date'', the path has
  an entry in the pending map, and the commit list between the head stored there and the
  head after the pull is not empty. Otherwise the list stays as it is. In the world the
  specification describes, a stored head equal to the head after the pull yields no entry.
\<close>

theorem C2_aggregation:
  "((\<exists>i. pullResults (fst (updatePullComplete w m msg)) = pullResults m @ [i]) \<longleftrightarrow>
      (err msg = None \<and> \<not> Contains (result msg) ''Already up to date'' \<and>
       (\<exists>oldHead. pendingPulls m (pullCompleteMsg.path msg) = Some oldHead \<and>
          getCommitsBetween w (pullCompleteMsg.path msg) oldHead
            (getHeadCommit w (pullCompleteMsg.path msg)) \<noteq> [])))
   \<and> (pullResults (fst (updatePullComplete w m msg)) = pullResults m \<or>
        (\<exists>i. pullResults (fst (updatePullComplete w m msg)) = pullResults m @ [i]
           \<and> RepoPath i = pullCompleteMsg.path msg \<and> Updated i \<and> Commits i \<noteq> []))
   \<and> (pendingPulls m (pullCompleteMsg.path msg)
         = Some (getHeadCommit (specWorld h w) (pullCompleteMsg.path msg)) \<longrightarrow>
       pullResults (fst (updatePullComplete (specWorld h w) m msg)) = pullResults m)"
proof -
  have c: "pendingPulls m (pullCompleteMsg.path msg)
         = Some (getHeadCommit (specWorld h w) (pullCompleteMsg.path msg)) \<longrightarrow>
       pullResults (fst (updatePullComplete (specWorld h w) m msg)) = pullResults m"
    by (simp add: updatePullComplete_results specWorld_same)
  have a: "(\<exists>i. pullResults (fst (updatePullComplete w m msg)) = pullResults m @ [i]) \<longleftrightarrow>
      (err msg = None \<and> \<not> Contains (result msg) ''Already up to date'' \<and>
       (\<exists>oldHead. pendingPulls m (pullCompleteMsg.path msg) = Some oldHead \<and>
          getCommitsBetween w (pullCompleteMsg.path msg) oldHead
            (getHeadCommit w (pullCompleteMsg.path msg)) \<noteq> []))"
    unfolding updatePullComplete_results by (auto split: option.splits)
  have b: "pullResults (fst (updatePullComplete w m msg)) = pullResults m \<or>
        (\<exists>i. pullResults (fst (updatePullComplete w m msg)) = pullResults m @ [i]
           \<and> RepoPath i = pullCompleteMsg.path msg \<and> Updated i \<and> Commits i \<noteq> [])"
    unfolding updatePullComplete_results by (auto split: option.splits)
  from a b c show ?thesis by blast
qed


theorem C2_aggregation_witness:
  "pullResults (fst (updatePullComplete busyWorld
       (zeroModel\<lparr>repos := [repoA], pendingPulls := [''/r/a'' \<mapsto> ''c0'']\<rparr>) (pulledMsg ''/r/a'')))
     = [\<lparr>RepoPath = ''/r/a'', RepoName = ''a'', Commits = [commit1], FilesChanged = 2,
         Updated = True\<rparr>]
   \<and> pendingPulls (zeroModel\<lparr>pendingPulls := [''/r/a'' \<mapsto> ''c0'']\<rparr>)
        (pullCompleteMsg.path (pulledMsg ''/r/a''))
      = Some (getHeadCommit (specWorld oneCommit quietWorld) (pullCompleteMsg.path (pulledMsg ''/r/a'')))
   \<and> pullResults (fst (updatePullComplete (specWorld oneCommit quietWorld)
        (zeroModel\<lparr>pendingPulls := [''/r/a'' \<mapsto> ''c0'']\<rparr>) (pulledMsg ''/r/a''))) = []"
proof -
  have h: "pendingPulls (zeroModel\<lparr>pendingPulls := [''/r/a'' \<mapsto> ''c0'']\<rparr>)
        (pullCompleteMsg.path (pulledMsg ''/r/a''))
      = Some (getHeadCommit (specWorld oneCommit quietWorld) (pullCompleteMsg.path (pulledMsg ''/r/a'')))"
    by (simp add: specWorld_def oneCommit_def pulledMsg_def)
  have r: "pullResults (fst (updatePullComplete busyWorld
       (zeroModel\<lparr>repos := [repoA], pendingPulls := [''/r/a'' \<mapsto> ''c0'']\<rparr>) (pulledMsg ''/r/a'')))
     = [\<lparr>RepoPath = ''/r/a'', RepoName = ''a'', Commits = [commit1], FilesChanged = 2,
         Updated = True\<rparr>]"
    by (simp add: updatePullComplete_def labelRepo_def collectPullResult_def finishPull_def
          zeroModel_def repoA_def pulledMsg_def busyWorld_def quietWorld_def Let_def)
  from C2_aggregation [of quietWorld "zeroModel\<lparr>pendingPulls := [''/r/a'' \<mapsto> ''c0'']\<rparr>"
         "pulledMsg ''/r/a''" oneCommit] h r
  show ?thesis by (simp add: zeroModel_def)
qed

text \<open>
  C10. A completion event whose path has no entry in the pending map leaves the result list
  and the map as they are. Through a whole round, every entry of the result list that was
  not there before comes from an event whose path had a head stored at the start of the
  round, and its commit list was computed from that stored head.
\<close>

theorem C10_stale:
  assumes "pendingPulls m (pullCompleteMsg.path msg) = None"
  shows "pullResults (fst (updatePullComplete w m msg)) = pullResults m
       \<and> pendingPulls (fst (updatePullComplete w m msg)) = pendingPulls m
       \<and> (\<forall>r \<in> set (pullResults (runPulls m' es)).
             r \<in> set (pullResults m') \<or>
             (\<exists>w msg old. (w, msg) \<in> set es \<and> pendingPulls m' (RepoPath r) = Some old
                \<and> pullCompleteMsg.path msg = RepoPath r
                \<and> Commits r = getCommitsBetween w (RepoPath r) old (getHeadCommit w (RepoPath r))))"
proof -
  have a: "pullResults (fst (updatePullComplete w m msg)) = pullResults m"
    using assms by (simp add: updatePullComplete_results)
  have b: "pendingPulls (fst (updatePullComplete w m msg)) = pendingPulls m"
    using assms by (simp add: updatePullComplete_pending fun_upd_idem)
  from a b runPulls_results_origin [of _ m' es] show ?thesis by blast
qed

theorem C10_stale_witness:
  "pendingPulls (zeroModel\<lparr>repos := [repoA]\<rparr>) (pullCompleteMsg.path (pulledMsg ''/r/a'')) = None
   \<and> pullResults (fst (updatePullComplete busyWorld (zeroModel\<lparr>repos := [repoA]\<rparr>) (pulledMsg ''/r/a''))) = []
   \<and> map PullResult (repos (fst (updatePullComplete busyWorld (zeroModel\<lparr>repos := [repoA]\<rparr>) (pulledMsg ''/r/a'')))) = [''updated'']"
proof -
  have h: "pendingPulls (zeroModel\<lparr>repos := [repoA]\<rparr>) (pullCompleteMsg.path (pulledMsg ''/r/a'')) = None"
    by (simp add: zeroModel_def)
  have l: "map PullResult (repos (fst (updatePullComplete busyWorld (zeroModel\<lparr>repos := [repoA]\<rparr>) (pulledMsg ''/r/a'')))) = [''updated'']"
    by (simp add: updatePullComplete_def labelRepo_def collectPullResult_def finishPull_def
          zeroModel_def repoA_def pulledMsg_def busyWorld_def quietWorld_def Let_def)
  from C10_stale [OF h, of busyWorld] h l show ?thesis by (simp add: zeroModel_def)
qed


subsection \<open>The diff-stat parser\<close>

text \<open>
  C3 (as stated, refuted). The claim expects additions = 6 and deletions = 6 for the line
  \<^verbatim>\<open> src/app.go | 12 +++++-----\<close>. The parser does not produce that.
\<close>

theorem C3_stat_line_counterexample:
  "parseGitStatOutput '' src/app.go | 12 +++++-----''
     \<noteq> [\<lparr>FileChange.Path = ''src/app.go'', Additions = 6, Deletions = 6\<rparr>]"
  by code_simp

text \<open>
  C3 (amended). The line \<^verbatim>\<open> src/app.go | 12 +++++-----\<close> parses to one entry with path
  \<^verbatim>\<open>src/app.go\<close>, additions = 5 and deletions = 5: the numbers of \<open>+\<close> and \<open>-\<close> marks. The
  count 12 is read only when there are no marks.
\<close>

theorem C3_stat_line:
  "parseGitStatOutput '' src/app.go | 12 +++++-----''
     = [\<lparr>FileChange.Path = ''src/app.go'', Additions = 5, Deletions = 5\<rparr>]"
  by code_simp

text \<open>
  C4 (as stated, refuted). A line with a count and no marks whose count does not fit Go's
  \<open>int\<close>: \<open>strconv.Atoi\<close> fails, the guarded branch is skipped, and both numbers stay 0.
\<close>

theorem C4_count_split_counterexample:
  "FindStringSubmatch statPattern '' f | 9223372036854775808''
     = Some [''f'', ''9223372036854775808'', [], []]
   \<and> parseGitStatOutput '' f | 9223372036854775808''
     = [\<lparr>FileChange.Path = ''f'', Additions = 0, Deletions = 0\<rparr>]"
  by code_simp

text \<open>
  C4 (amended). For every line of a diff stat that is not skipped, on which the pattern
  captures a count and no \<open>+\<close> or \<open>-\<close> marks, and whose count fits Go's \<open>int\<close>, the parser
  yields additions = count div 2 and deletions = count - count div 2; their sum is the count
  and deletions exceed additions by the remainder of the count modulo 2. Every such line
  of the output contributes that entry to the result of \<open>parseGitStatOutput\<close>.
\<close>

theorem C4_count_split:
  assumes "\<not> Contains line ''files changed''" and "\<not> Contains line ''file changed''"
    and "TrimSpace line \<noteq> []"
    and "FindStringSubmatch statPattern line = Some [m1, m2, m3, m4]"
    and "m2 \<noteq> []" and "m3 = []" and "m4 = []"
    and "decimal m2 \<le> maxInt"
  shows "parseStatLine line =
           Some \<lparr>FileChange.Path = TrimSpace m1,
                 Additions = decimal m2 div 2,
                 Deletions = decimal m2 - decimal m2 div 2\<rparr>
       \<and> decimal m2 div 2 + (decimal m2 - decimal m2 div 2) = decimal m2
       \<and> (decimal m2 - decimal m2 div 2) - decimal m2 div 2 = decimal m2 mod 2
       \<and> (line \<in> set (Split (TrimSpace output) (CHR 0x0A)) \<longrightarrow>
            \<lparr>FileChange.Path = TrimSpace m1, Additions = decimal m2 div 2,
              Deletions = decimal m2 - decimal m2 div 2\<rparr> \<in> set (parseGitStatOutput output))"
proof -
  have d: "list_all isDigit m2" using assms(4) by (rule statPattern_digits)
  have "Atoi m2 = Some (decimal m2)" using Atoi_digits [OF assms(5) d] assms(8) by simp
  moreover have "goDiv (decimal m2) 2 = decimal m2 div 2"
    using decimal_nonneg [OF d] by (rule goDiv_nonneg)
  ultimately have p: "parseStatLine line =
           Some \<lparr>FileChange.Path = TrimSpace m1,
                 Additions = decimal m2 div 2,
                 Deletions = decimal m2 - decimal m2 div 2\<rparr>"
    using assms by (simp add: parseStatLine_def Let_def)
  have s: "decimal m2 div 2 + (decimal m2 - decimal m2 div 2) = decimal m2" by simp
  have r: "(decimal m2 - decimal m2 div 2) - decimal m2 div 2 = decimal m2 mod 2"
    by presburger
  have q: "line \<in> set (Split (TrimSpace output) (CHR 0x0A)) \<longrightarrow>
            \<lparr>FileChange.Path = TrimSpace m1, Additions = decimal m2 div 2,
              Deletions = decimal m2 - decimal m2 div 2\<rparr> \<in> set (parseGitStatOutput output)"
    using p by (force simp: parseGitStatOutput_def map_filter_def)
  from p s r q show ?thesis by blast
qed

theorem C4_count_split_witness:
  "\<not> Contains '' logo.png | 7'' ''files changed''
   \<and> \<not> Contains '' logo.png | 7'' ''file changed''
   \<and> TrimSpace '' logo.png | 7'' \<noteq> []
   \<and> FindStringSubmatch statPattern '' logo.png | 7'' = Some [''logo.png'', ''7'', [], []]
   \<and> decimal ''7'' \<le> maxInt
   \<and> parseStatLine '' logo.png | 7'' = Some \<lparr>FileChange.Path = ''logo.png'', Additions = 3, Deletions = 4\<rparr>
   \<and> parseGitStatOutput '' logo.png | 7'' = [\<lparr>FileChange.Path = ''logo.png'', Additions = 3, Deletions = 4\<rparr>]"
proof -
  have h1: "\<not> Contains '' logo.png | 7'' ''files changed''" by code_simp
  have h2: "\<not> Contains '' logo.png | 7'' ''file changed''" by code_simp
  have h3: "TrimSpace '' logo.png | 7'' \<noteq> []" by code_simp
  have h4: "FindStringSubmatch statPattern '' logo.png | 7'' = Some [''logo.png'', ''7'', [], []]"
    by code_simp
  have h5: "decimal ''7'' \<le> maxInt" by code_simp
  have v: "decimal ''7'' = 7" by code_simp
  have t: "TrimSpace ''logo.png'' = ''logo.png''" by code_simp
  have o: "parseGitStatOutput '' logo.png | 7'' = [\<lparr>FileChange.Path = ''logo.png'', Additions = 3, Deletions = 4\<rparr>]"
    by code_simp
  have e: "''7'' \<noteq> []" by simp
  from C4_count_split [OF h1 h2 h3 h4 e refl refl h5] h1 h2 h3 h4 h5 o
  show ?thesis by (simp add: v t)
qed

subsection \<open>The status refresher\<close>

text \<open>
  C6 (as stated, refuted). The behind-count query succeeds and prints 3; the dirty-check
  query fails. The message reports a behind count of 0, not 3.
\<close>

theorem C6_independence_counterexample:
  "Atoi (TrimSpace (''3'' @ [CHR 0x0A])) = Some 3
   \<and> behindCount (checkGitStatus ''/r/a'' \<lparr>stdout = ''main'', failed = False\<rparr>
        \<lparr>stdout = ''3'' @ [CHR 0x0A], failed = False\<rparr> \<lparr>stdout = [], failed = True\<rparr>) = 0"
  by code_simp

text \<open>
  C6 (amended). Both queries are best-effort. A failure of the behind-count query does not
  suppress the dirty-check result: the message is the one for a behind count of 0. A failure
  of the dirty-check query gives status \<open>StatusError\<close>, the text ``failed to get status''
  and a behind count of 0, whatever the behind-count query returned. When the dirty-check
  query succeeds, the status is never \<open>StatusError\<close>, it is \<open>StatusDirty\<close> exactly when
  the output is not blank, and the text does not depend on the behind-count query.
\<close>

theorem C6_refresher:
  "(failed bh \<longrightarrow> checkGitStatus p br bh st = checkGitStatus p br \<lparr>stdout = ''0'', failed = False\<rparr> st)
   \<and> (failed st \<longrightarrow> status (checkGitStatus p br bh st) = StatusError
         \<and> msgText (checkGitStatus p br bh st) = ''failed to get status''
         \<and> behindCount (checkGitStatus p br bh st) = 0)
   \<and> (\<not> failed st \<longrightarrow> status (checkGitStatus p br bh st) \<noteq> StatusError
         \<and> (status (checkGitStatus p br bh st) = StatusDirty \<longleftrightarrow> TrimSpace (stdout st) \<noteq> [])
         \<and> msgText (checkGitStatus p br bh st) = msgText (checkGitStatus p br bh' st))"
  by (simp add: checkGitStatus_def Let_def Atoi_zero)

theorem C6_refresher_witness:
  "failed \<lparr>stdout = [], failed = True\<rparr>
   \<and> status (checkGitStatus ''/r/a'' \<lparr>stdout = ''main'', failed = False\<rparr>
        \<lparr>stdout = ''3'', failed = False\<rparr> \<lparr>stdout = [], failed = True\<rparr>) = StatusError
   \<and> checkGitStatus ''/r/a'' \<lparr>stdout = ''main'', failed = False\<rparr>
        \<lparr>stdout = [], failed = True\<rparr> \<lparr>stdout = '' M a.go'' @ [CHR 0x0A] @ ''?? b'', failed = False\<rparr>
      = \<lparr>statusUpdatedMsg.path = ''/r/a'', branch = ''main'', status = StatusDirty,
         msgText = ''2 changed'', behindCount = 0\<rparr>"
proof -
  have f: "failed \<lparr>stdout = [], failed = True\<rparr>" by simp
  have d: "checkGitStatus ''/r/a'' \<lparr>stdout = ''main'', failed = False\<rparr>
        \<lparr>stdout = [], failed = True\<rparr> \<lparr>stdout = '' M a.go'' @ [CHR 0x0A] @ ''?? b'', failed = False\<rparr>
      = \<lparr>statusUpdatedMsg.path = ''/r/a'', branch = ''main'', status = StatusDirty,
         msgText = ''2 changed'', behindCount = 0\<rparr>"
    by code_simp
  have e: "status (checkGitStatus ''/r/a'' \<lparr>stdout = ''main'', failed = False\<rparr>
        \<lparr>stdout = ''3'', failed = False\<rparr> \<lparr>stdout = [], failed = True\<rparr>) = StatusError"
    using C6_refresher [of "\<lparr>stdout = ''3'', failed = False\<rparr>" "''/r/a''"
        "\<lparr>stdout = ''main'', failed = False\<rparr>" "\<lparr>stdout = [], failed = True\<rparr>"] f
    by blast
  from f e d show ?thesis by blast
qed

subsection \<open>The branch reconciler\<close>

text \<open>
  C7. Whatever the current branch name, the local branches (a map, so no name twice) and the
  remote references are, and in whatever order the maps are ranged over and the result is
  sorted: every permutation of the branch list that \<open>loadBranches\<close> returns has no entry
  that is neither local nor remote, has at most one current entry, and every current entry
  is local.
\<close>

theorem C7_reconciliation:
  assumes "distinct (map fst localBranches)"
  shows "\<forall>bs. mset bs = mset (branchesLoadedMsg.branches (loadBranches p cur localBranches remoteBranches)) \<longrightarrow>
           (\<forall>b\<in>set bs. IsLocal b \<or> IsRemote b)
           \<and> length (filter IsCurrent bs) \<le> 1
           \<and> (\<forall>b\<in>set bs. IsCurrent b \<longrightarrow> IsLocal b)"
proof (intro allI impI)
  fix bs
  assume "mset bs = mset (branchesLoadedMsg.branches (loadBranches p cur localBranches remoteBranches))"
  then have m: "mset bs = mset (buildBranches cur localBranches remoteBranches)"
    by (simp add: loadBranches_def mset_sortSlice)
  then have s: "set bs = set (buildBranches cur localBranches remoteBranches)"
    by (rule mset_eq_setD)
  have l: "length (filter IsCurrent bs) = length (filter IsCurrent (buildBranches cur localBranches remoteBranches))"
    using m by (rule length_filter_mset)
  show "(\<forall>b\<in>set bs. IsLocal b \<or> IsRemote b)
           \<and> length (filter IsCurrent bs) \<le> 1
           \<and> (\<forall>b\<in>set bs. IsCurrent b \<longrightarrow> IsLocal b)"
    unfolding s l using buildBranches_props [OF assms, of cur remoteBranches] by blast
qed

theorem C7_reconciliation_witness:
  "distinct (map fst [(''dev'', []), (''main'', ''origin/main'')])
   \<and> branchesLoadedMsg.branches (loadBranches ''/r/a'' ''main''
        [(''dev'', []), (''main'', ''origin/main'')] [''origin/feature'', ''origin/main''])
      = [mainBranch, devBranch,
         \<lparr>Name = ''feature'', IsLocal = False, IsRemote = True, IsCurrent = False,
          RemoteName = ''origin/feature''\<rparr>]
   \<and> length (filter IsCurrent (branchesLoadedMsg.branches (loadBranches ''/r/a'' ''main''
        [(''dev'', []), (''main'', ''origin/main'')] [''origin/feature'', ''origin/main'']))) \<le> 1"
proof -
  have d: "distinct (map fst [(''dev'', []), (''main'', ''origin/main'')])" by simp
  have v: "branchesLoadedMsg.branches (loadBranches ''/r/a'' ''main''
        [(''dev'', []), (''main'', ''origin/main'')] [''origin/feature'', ''origin/main''])
      = [mainBranch, devBranch,
         \<lparr>Name = ''feature'', IsLocal = False, IsRemote = True, IsCurrent = False,
          RemoteName = ''origin/feature''\<rparr>]"
    by (simp add: loadBranches_def buildBranches_def addLocalBranch_def addRemoteBranch_def
          sortSlice_def branchLess_def TrimPrefix_def mainBranch_def devBranch_def Let_def)
  have l: "length (filter IsCurrent (branchesLoadedMsg.branches (loadBranches ''/r/a'' ''main''
        [(''dev'', []), (''main'', ''origin/main'')] [''origin/feature'', ''origin/main'']))) \<le> 1"
    using C7_reconciliation [OF d, of "''/r/a''" "''main''" "[''origin/feature'', ''origin/main'']"]
    by blast
  from d v l show ?thesis by blast
qed

subsection \<open>The status filters\<close>

text \<open>
  C8. Behind counts are counts: the reducer only ever stores what \<open>checkGitStatus\<close> parsed
  from \<open>git rev-list --count\<close>, which is not negative (lemmas above). On every such state,
  with both filters on, the filtered list holds exactly the repositories with status
  \<open>StatusDirty\<close> and a behind count greater than 0, in the order of \<open>m.repos\<close>. Switching
  either filter off, or both, yields a superset. The same holds for the items
  \<open>updateList\<close> shows.
\<close>

theorem C8_filters:
  assumes "\<forall>r\<in>set (repos m). 0 \<le> Repo.BehindCount r"
  shows "getFilteredRepos (m\<lparr>filterDirty := True, filterBehind := True\<rparr>)
          = filter (\<lambda>r. Status r = StatusDirty \<and> Repo.BehindCount r > 0) (repos m)
   \<and> set (getFilteredRepos (m\<lparr>filterDirty := True, filterBehind := True\<rparr>))
        \<subseteq> set (getFilteredRepos (m\<lparr>filterDirty := False, filterBehind := True\<rparr>))
   \<and> set (getFilteredRepos (m\<lparr>filterDirty := True, filterBehind := True\<rparr>))
        \<subseteq> set (getFilteredRepos (m\<lparr>filterDirty := True, filterBehind := False\<rparr>))
   \<and> set (getFilteredRepos (m\<lparr>filterDirty := fd, filterBehind := fb\<rparr>))
        \<subseteq> set (getFilteredRepos (m\<lparr>filterDirty := False, filterBehind := False\<rparr>))
   \<and> set (snd (updateList (m\<lparr>filterDirty := True, filterBehind := True\<rparr>)))
        = {r \<in> set (repos m). Status r = StatusDirty \<and> Repo.BehindCount r > 0}
   \<and> set (snd (updateList (m\<lparr>filterDirty := True, filterBehind := True\<rparr>)))
        \<subseteq> set (snd (updateList (m\<lparr>filterDirty := False, filterBehind := True\<rparr>)))
   \<and> set (snd (updateList (m\<lparr>filterDirty := True, filterBehind := True\<rparr>)))
        \<subseteq> set (snd (updateList (m\<lparr>filterDirty := True, filterBehind := False\<rparr>)))"
proof -
  have a: "filter (\<lambda>r. Status r = StatusDirty \<and> Repo.BehindCount r \<noteq> 0) (repos m)
          = filter (\<lambda>r. Status r = StatusDirty \<and> Repo.BehindCount r > 0) (repos m)"
    using assms by (auto intro!: filter_cong)
  have b: "{r \<in> set (repos m). Status r = StatusDirty \<and> Repo.BehindCount r \<noteq> 0}
          = {r \<in> set (repos m). Status r = StatusDirty \<and> Repo.BehindCount r > 0}"
    using assms by auto
  have c: "getFilteredRepos (m\<lparr>filterDirty := True, filterBehind := True\<rparr>)
          = filter (\<lambda>r. Status r = StatusDirty \<and> Repo.BehindCount r > 0) (repos m)"
    using a by (simp add: getFilteredRepos_def filterRepos_eq)
  have d: "set (snd (updateList (m\<lparr>filterDirty := True, filterBehind := True\<rparr>)))
        = {r \<in> set (repos m). Status r = StatusDirty \<and> Repo.BehindCount r > 0}"
    using b by (auto simp: updateList_def Let_def filterRepos_eq set_sortSlice)
  have e: "set (getFilteredRepos (m\<lparr>filterDirty := True, filterBehind := True\<rparr>))
        \<subseteq> set (getFilteredRepos (m\<lparr>filterDirty := False, filterBehind := True\<rparr>))"
     "set (getFilteredRepos (m\<lparr>filterDirty := True, filterBehind := True\<rparr>))
        \<subseteq> set (getFilteredRepos (m\<lparr>filterDirty := True, filterBehind := False\<rparr>))"
     "set (getFilteredRepos (m\<lparr>filterDirty := fd, filterBehind := fb\<rparr>))
        \<subseteq> set (getFilteredRepos (m\<lparr>filterDirty := False, filterBehind := False\<rparr>))"
    by (auto simp: getFilteredRepos_def filterRepos_eq)
  have f: "set (snd (updateList (m\<lparr>filterDirty := True, filterBehind := True\<rparr>)))
        \<subseteq> set (snd (updateList (m\<lparr>filterDirty := False, filterBehind := True\<rparr>)))"
     "set (snd (updateList (m\<lparr>filterDirty := True, filterBehind := True\<rparr>)))
        \<subseteq> set (snd (updateList (m\<lparr>filterDirty := True, filterBehind := False\<rparr>)))"
    by (auto simp: updateList_def Let_def filterRepos_eq set_sortSlice)
  from c d e f show ?thesis by blast
qed

text \<open>Repository \<open>a\<close> is clean and up to date, \<open>b\<close> is dirty and three commits behind.\<close>

theorem C8_filters_witness:
  "0 \<le> Repo.BehindCount repoA \<and> 0 \<le> Repo.BehindCount repoB
   \<and> getFilteredRepos (zeroModel\<lparr>repos := [repoA, repoB], filterDirty := True, filterBehind := True\<rparr>)
      = [repoB]
   \<and> getFilteredRepos (zeroModel\<lparr>repos := [repoA, repoB], filterDirty := True, filterBehind := True\<rparr>)
      = filter (\<lambda>r. Status r = StatusDirty \<and> Repo.BehindCount r > 0) [repoA, repoB]
   \<and> getFilteredRepos (zeroModel\<lparr>repos := [repoA, repoB], filterDirty := False, filterBehind := False\<rparr>)
      = [repoA, repoB]"
proof -
  have n: "0 \<le> Repo.BehindCount repoA" "0 \<le> Repo.BehindCount repoB"
    by (simp_all add: repoA_def repoB_def)
  have b: "getFilteredRepos (zeroModel\<lparr>repos := [repoA, repoB], filterDirty := True, filterBehind := True\<rparr>)
      = [repoB]"
    by (simp add: getFilteredRepos_def zeroModel_def repoA_def repoB_def)
  have o: "getFilteredRepos (zeroModel\<lparr>repos := [repoA, repoB], filterDirty := False, filterBehind := False\<rparr>)
      = [repoA, repoB]"
    by (simp add: getFilteredRepos_def zeroModel_def)
  have h: "\<forall>r\<in>set (repos (zeroModel\<lparr>repos := [repoA, repoB]\<rparr>)). 0 \<le> Repo.BehindCount r"
    using n by simp
  have "getFilteredRepos (zeroModel\<lparr>repos := [repoA, repoB]\<rparr>\<lparr>filterDirty := True, filterBehind := True\<rparr>)
      = filter (\<lambda>r. Status r = StatusDirty \<and> Repo.BehindCount r > 0)
          (repos (zeroModel\<lparr>repos := [repoA, repoB]\<rparr>))"
    using C8_filters [OF h] by blast
  then have g: "getFilteredRepos (zeroModel\<lparr>repos := [repoA, repoB], filterDirty := True, filterBehind := True\<rparr>)
      = filter (\<lambda>r. Status r = StatusDirty \<and> Repo.BehindCount r > 0) [repoA, repoB]"
    by simp
  from n b g o show ?thesis by blast
qed

subsection \<open>Deleting a branch\<close>

text \<open>
  C9. For every key pressed in the detail view: if the reducer returns and dispatches a
  branch-delete task, then the branches pane has the focus, the key is \<open>x\<close> or \<open>X\<close>, and the
  task is for the selected branch, which is not current and is local; with \<open>x\<close> it is also
  not on the remote and the deletion is not forced. If the selected branch is current, \<open>x\<close>
  and \<open>X\<close> return the state with at most the status message changed and no task.
\<close>

theorem C9_delete_guard:
  "(detailViewKey w m key = Inr (m', c) \<and> CmdDeleteBranch p b force \<in> set (dispatched c) \<longrightarrow>
      (\<exists>repo br. detailFocus m = paneBranches \<and> detailRepo m = Some repo
           \<and> selectedBranch m = Inr br
           \<and> p = Repo.Path repo \<and> b = BranchInfo.Name br
           \<and> \<not> IsCurrent br \<and> IsLocal br
           \<and> ((key = ''x'' \<and> \<not> IsRemote br \<and> \<not> force) \<or> (key = ''X'' \<and> force))))
   \<and> (detailFocus m = paneBranches \<and> (key = ''x'' \<or> key = ''X'')
        \<and> selectedBranch m = Inr cb \<and> IsCurrent cb \<longrightarrow>
      (\<exists>m1. detailViewKey w m key = Inr (m1, CmdNil) \<and> m1\<lparr>statusMsg := statusMsg m\<rparr> = m
            \<and> dispatched CmdNil = []))"
proof (intro conjI impI)
  assume h: "detailViewKey w m key = Inr (m', c) \<and> CmdDeleteBranch p b force \<in> set (dispatched c)"
  then have "detailFocus m = paneBranches" "branchesPaneKey w m key = Inr (m', c)"
    using detailViewKey_delete [of w m key m' c p b force] by simp_all
  with h branchesPaneKey_delete [of w m key m' c p b force]
  show "\<exists>repo br. detailFocus m = paneBranches \<and> detailRepo m = Some repo
           \<and> selectedBranch m = Inr br
           \<and> p = Repo.Path repo \<and> b = BranchInfo.Name br
           \<and> \<not> IsCurrent br \<and> IsLocal br
           \<and> ((key = ''x'' \<and> \<not> IsRemote br \<and> \<not> force) \<or> (key = ''X'' \<and> force))"
    by blast
next
  assume h: "detailFocus m = paneBranches \<and> (key = ''x'' \<or> key = ''X'')
        \<and> selectedBranch m = Inr cb \<and> IsCurrent cb"
  then have "detailViewKey w m key = branchesPaneKey w m key"
    using detailViewKey_branches [of key m w] by simp
  with h branchesPaneKey_current [of key m cb w]
  show "\<exists>m1. detailViewKey w m key = Inr (m1, CmdNil) \<and> m1\<lparr>statusMsg := statusMsg m\<rparr> = m
            \<and> dispatched CmdNil = []"
    by auto
qed

theorem C9_delete_guard_witness:
  "detailViewKey quietWorld (detailModel 1) ''x''
     = Inr (detailModel 1, CmdDeleteBranch ''/r/a'' ''dev'' False)
   \<and> CmdDeleteBranch ''/r/a'' ''dev'' False
        \<in> set (dispatched (CmdDeleteBranch ''/r/a'' ''dev'' False))
   \<and> (\<exists>br. selectedBranch (detailModel 1) = Inr br \<and> \<not> IsCurrent br \<and> IsLocal br
          \<and> \<not> IsRemote br)
   \<and> detailFocus (detailModel 0) = paneBranches
   \<and> selectedBranch (detailModel 0) = Inr mainBranch \<and> IsCurrent mainBranch
   \<and> detailViewKey quietWorld (detailModel 0) ''X''
     = Inr ((detailModel 0)\<lparr>statusMsg := ''Cannot delete current branch''\<rparr>, CmdNil)"
proof -
  have k: "detailViewKey quietWorld (detailModel 1) ''x''
     = Inr (detailModel 1, CmdDeleteBranch ''/r/a'' ''dev'' False)"
    by (simp add: detailViewKey_def branchesPaneKey_def selectedBranch_def detailModel_def
          zeroModel_def repoA_def mainBranch_def devBranch_def paneBranches_def paneStatus_def
          paneCommand_def)
  have i: "CmdDeleteBranch ''/r/a'' ''dev'' False
        \<in> set (dispatched (CmdDeleteBranch ''/r/a'' ''dev'' False))"
    by simp
  have e: "\<exists>br. selectedBranch (detailModel 1) = Inr br \<and> \<not> IsCurrent br \<and> IsLocal br
          \<and> \<not> IsRemote br"
    using C9_delete_guard [of quietWorld "detailModel 1" "''x''" "detailModel 1"
        "CmdDeleteBranch ''/r/a'' ''dev'' False" "''/r/a''" "''dev''" False] k i
    by auto
  have f: "detailFocus (detailModel 0) = paneBranches"
    by (simp add: detailModel_def)
  have s: "selectedBranch (detailModel 0) = Inr mainBranch"
    by (simp add: selectedBranch_def detailModel_def)
  have c: "IsCurrent mainBranch"
    by (simp add: mainBranch_def)
  have x: "detailViewKey quietWorld (detailModel 0) ''X''
     = Inr ((detailModel 0)\<lparr>statusMsg := ''Cannot delete current branch''\<rparr>, CmdNil)"
    by (simp add: detailViewKey_def branchesPaneKey_def selectedBranch_def detailModel_def
          zeroModel_def repoA_def mainBranch_def devBranch_def paneBranches_def paneStatus_def
          paneCommand_def)
  from k i e f s c x show ?thesis by blast
qed

subsection \<open>Cursor: descend then ascend\<close>

text \<open>
  C5 (as stated, refuted). The claim says that descend followed by ascend restores the level
  and all three indices. From the repository level with commit index 3, \<open>GoDeeper\<close> resets
  the commit index to 0 and \<open>GoUp\<close> does not bring the 3 back. At the file level
  \<open>GoDeeper\<close> does not move, and \<open>GoUp\<close> then leaves the cursor one level higher.
\<close>

theorem C5_descend_ascend_counterexample:
  "snd (GoUp (snd (GoDeeper \<lparr>Level = 0, RepoIdx = 0, CommitIdx = 3, FileIdx = 0\<rparr>)))
     = \<lparr>Level = 0, RepoIdx = 0, CommitIdx = 0, FileIdx = 0\<rparr>
   \<and> snd (GoUp (snd (GoDeeper \<lparr>Level = 0, RepoIdx = 0, CommitIdx = 3, FileIdx = 0\<rparr>)))
     \<noteq> \<lparr>Level = 0, RepoIdx = 0, CommitIdx = 3, FileIdx = 0\<rparr>
   \<and> fst (GoDeeper \<lparr>Level = 2, RepoIdx = 0, CommitIdx = 1, FileIdx = 4\<rparr>) = False
   \<and> snd (GoUp (snd (GoDeeper \<lparr>Level = 2, RepoIdx = 0, CommitIdx = 1, FileIdx = 4\<rparr>)))
     = \<lparr>Level = 1, RepoIdx = 0, CommitIdx = 1, FileIdx = 4\<rparr>"
  by (simp add: GoDeeper_def GoUp_def)

text \<open>
  C5 (amended). From the repository level or the commit level, descend followed by ascend
  restores the level, and every index except the one of the level that was entered: entering
  the commit level resets the commit index to 0, entering the file level resets the file
  index to 0, and ascending leaves that 0 in place.
\<close>

theorem C5_descend_ascend:
  assumes "Level c = 0 \<or> Level c = 1"
  shows "fst (GoDeeper c) \<and> fst (GoUp (snd (GoDeeper c)))
       \<and> snd (GoUp (snd (GoDeeper c))) =
           (if Level c = 0 then c\<lparr>CommitIdx := 0\<rparr> else c\<lparr>FileIdx := 0\<rparr>)"
  using assms by (auto simp: GoDeeper_def GoUp_def Let_def)

theorem C5_descend_ascend_witness:
  "(Level \<lparr>Level = 1, RepoIdx = 2, CommitIdx = 4, FileIdx = 7\<rparr> = 0
      \<or> Level \<lparr>Level = 1, RepoIdx = 2, CommitIdx = 4, FileIdx = 7\<rparr> = 1)
   \<and> snd (GoUp (snd (GoDeeper \<lparr>Level = 1, RepoIdx = 2, CommitIdx = 4, FileIdx = 7\<rparr>)))
       = \<lparr>Level = 1, RepoIdx = 2, CommitIdx = 4, FileIdx = 0\<rparr>"
  using C5_descend_ascend [of "\<lparr>Level = 1, RepoIdx = 2, CommitIdx = 4, FileIdx = 7\<rparr>"]
  by simp

end
